theory Spec2Isabelle
  imports Main "HOL-Library.Sublist" "HOL-Library.Word"
begin

section \<open>The item catalog service (walnut07/mercari-build-training-2023, go/app)\<close>

text \<open>
  The repository holds three generations of one HTTP service:
  \<^item> \<^verbatim>\<open>src/unnamed/part_000\<close>, the earliest: flat JSON file, no extension check;
  \<^item> \<^verbatim>\<open>src/go/app/main.go\<close>: flat JSON file, extension check, get-by-position;
  \<^item> \<^verbatim>\<open>src/unnamed/part_001\<close>, the relational one: add, get-by-id and search on a
    sqlite table, list still on the JSON file.
  A function that is the same text in several files is defined once; a function that
  differs carries the suffix \<open>_part000\<close>, \<open>_main\<close> or \<open>_part001\<close> of its file.
  \<^verbatim>\<open>src/go/app/items.go\<close> declares an \<^verbatim>\<open>Item\<close> with a category id and a \<^verbatim>\<open>Category\<close>; no
  function of the three files uses them.

  What the handlers take from outside the repository is modelled as far as the
  handlers depend on it: the file system, the sqlite database, the JSON codec, the
  functions of \<^verbatim>\<open>path\<close>, \<^verbatim>\<open>strings\<close>, \<^verbatim>\<open>strconv\<close> and \<^verbatim>\<open>fmt\<close>, and the calls of echo's context.
  \<^verbatim>\<open>sha256.Sum256\<close> is not modelled: every function that hashes takes it as its
  parameter \<open>H\<close>, and every theorem holds for every \<open>H\<close>. The log lines written
  through \<^verbatim>\<open>c.Logger()\<close> are left out.
\<close>

subsection \<open>Library functions the handlers call\<close>

text \<open>\<^verbatim>\<open>strings.HasSuffix(s, suffix)\<close>:
  \<^verbatim>\<open>len(s) >= len(suffix) && s[len(s)-len(suffix):] == suffix\<close>.\<close>

definition strings_HasSuffix :: "string \<Rightarrow> string \<Rightarrow> bool" where
  "strings_HasSuffix s suf =
     (length suf \<le> length s \<and> drop (length s - length suf) s = suf)"

text \<open>\<^verbatim>\<open>path.Ext\<close>: scan from the end of the path down to the last slash; the first dot
  met starts the extension. \<open>ext_scan\<close> walks the reversed path, \<open>acc\<close> is what was passed.\<close>

fun ext_scan :: "string \<Rightarrow> string \<Rightarrow> string" where
  "ext_scan [] acc = []"
| "ext_scan (c # cs) acc =
     (if c = CHR ''/'' then []
      else if c = CHR ''.'' then c # acc
      else ext_scan cs (c # acc))"

definition path_Ext :: "string \<Rightarrow> string" where
  "path_Ext p = ext_scan (rev p) []"

text \<open>\<^verbatim>\<open>path.Clean\<close> and \<^verbatim>\<open>path.Join\<close>, over the slash-separated elements of the path:
  empty and \<open>.\<close> elements are dropped, \<open>..\<close> removes the element before it when there is
  one to remove, stays when the path is not rooted, and is dropped at the root.
  \<open>out\<close> is the output so far, last element first.\<close>

fun split_slash :: "string \<Rightarrow> string list" where
  "split_slash [] = [[]]"
| "split_slash (c # cs) =
     (if c = CHR ''/'' then [] # split_slash cs
      else (case split_slash cs of
              [] \<Rightarrow> [[c]]
            | e # es \<Rightarrow> (c # e) # es))"

fun join_slash :: "string list \<Rightarrow> string" where
  "join_slash [] = []"
| "join_slash [e] = e"
| "join_slash (e # es) = e @ CHR ''/'' # join_slash es"

definition clean_step :: "bool \<Rightarrow> string list \<Rightarrow> string \<Rightarrow> string list" where
  "clean_step rooted out e =
     (if e = [] \<or> e = ''.'' then out
      else if e = ''..'' then
        (if out \<noteq> [] \<and> hd out \<noteq> ''..'' then tl out
         else if \<not> rooted then e # out
         else out)
      else e # out)"

definition path_Clean :: "string \<Rightarrow> string" where
  "path_Clean p =
     (if p = [] then ''.''
      else
        let rooted = (hd p = CHR ''/'');
            out = foldl (clean_step rooted) [] (split_slash p)
        in if rooted then CHR ''/'' # join_slash (rev out)
           else if out = [] then ''.''
           else join_slash (rev out))"

definition path_Join :: "string list \<Rightarrow> string" where
  "path_Join elem =
     (case dropWhile (\<lambda>e. e = []) elem of
        [] \<Rightarrow> []
      | es \<Rightarrow> path_Clean (join_slash es))"

text \<open>\<^verbatim>\<open>fmt.Sprintf("%x", h)\<close> on a byte array: two lowercase hex digits per byte.\<close>

definition hexdigit :: "nat \<Rightarrow> char" where
  "hexdigit n = ''0123456789abcdef'' ! n"

definition Sprintf_x :: "8 word list \<Rightarrow> string" where
  "Sprintf_x h = concat (map (\<lambda>b. [hexdigit (unat b div 16), hexdigit (unat b mod 16)]) h)"

text \<open>\<^verbatim>\<open>strconv.Itoa\<close> on the indices of a slice, which are never negative; below ten
  \<open>hexdigit\<close> is the decimal digit.\<close>

fun Itoa :: "nat \<Rightarrow> string" where
  "Itoa n = (if n < 10 then [hexdigit n] else Itoa (n div 10) @ [hexdigit (n mod 10)])"

declare Itoa.simps [simp del]

text \<open>
  \<^verbatim>\<open>encoding/json\<close> writes a string byte for byte (escaped, and unescaped again by the
  decoder) except that every byte which does not start a valid UTF-8 sequence is
  replaced by U+FFFD. \<open>decode_size\<close> is the size \<^verbatim>\<open>utf8.DecodeRuneInString\<close> reports for
  a valid sequence at the head of the string, \<open>None\<close> where it reports \<^verbatim>\<open>RuneError\<close> with
  size 1.
\<close>

definition in_range :: "nat \<Rightarrow> nat \<Rightarrow> char \<Rightarrow> bool" where
  "in_range lo hi c = (lo \<le> of_char c \<and> of_char c \<le> hi)"

definition decode_size :: "string \<Rightarrow> nat option" where
  "decode_size s =
     (case s of
        [] \<Rightarrow> None
      | b0 # rest \<Rightarrow>
          let n = (of_char b0 :: nat) in
          if n < 0x80 then Some 1
          else if 0xC2 \<le> n \<and> n \<le> 0xDF then
            (case rest of
               b1 # _ \<Rightarrow> if in_range 0x80 0xBF b1 then Some 2 else None
             | _ \<Rightarrow> None)
          else if 0xE0 \<le> n \<and> n \<le> 0xEF then
            (case rest of
               b1 # b2 # _ \<Rightarrow>
                 if in_range (if n = 0xE0 then 0xA0 else 0x80)
                             (if n = 0xED then 0x9F else 0xBF) b1
                    \<and> in_range 0x80 0xBF b2
                 then Some 3 else None
             | _ \<Rightarrow> None)
          else if 0xF0 \<le> n \<and> n \<le> 0xF4 then
            (case rest of
               b1 # b2 # b3 # _ \<Rightarrow>
                 if in_range (if n = 0xF0 then 0x90 else 0x80)
                             (if n = 0xF4 then 0x8F else 0xBF) b1
                    \<and> in_range 0x80 0xBF b2 \<and> in_range 0x80 0xBF b3
                 then Some 4 else None
             | _ \<Rightarrow> None)
          else None)"

definition replacement :: string where
  "replacement = [char_of (0xEF :: nat), char_of (0xBF :: nat), char_of (0xBD :: nat)]"

fun toValidUTF8 :: "string \<Rightarrow> string" where
  "toValidUTF8 [] = []"
| "toValidUTF8 (c # cs) =
     (case decode_size (c # cs) of
        None \<Rightarrow> replacement @ toValidUTF8 cs
      | Some k \<Rightarrow> c # take (k - 1) cs @ toValidUTF8 (drop (k - 1) cs))"

subsection \<open>Data model\<close>

text \<open>\<^verbatim>\<open>Item\<close> of \<^verbatim>\<open>main.go\<close> and \<^verbatim>\<open>part_000\<close>; \<^verbatim>\<open>part_001\<close> adds the field \<^verbatim>\<open>ID\<close>.\<close>

record Item =
  Name :: string
  Category :: string
  ImageFileName :: string

record ItemID = Item +
  ID :: int

text \<open>
  What a file holds. \<open>Json its\<close> stands for bytes after whose decoding by
  \<^verbatim>\<open>json.Unmarshal\<close> the \<^verbatim>\<open>Items\<close> struct of the generation at hand holds \<open>its\<close>;
  \<open>Bytes b\<close> for any other bytes, which \<^verbatim>\<open>json.Unmarshal\<close> refuses, leaving the struct
  as it was (the handlers drop its error). Only the catalog file is ever decoded, and
  only image files are written as bytes.
\<close>

datatype 'i content = Json "'i list" | Bytes string

text \<open>
  A file of the file system with what the operating system lets the process do to it:
  \<open>can_open\<close> decides \<^verbatim>\<open>os.Open\<close>, \<open>can_read\<close> decides \<^verbatim>\<open>ioutil.ReadAll\<close> on the open
  file, \<open>can_write\<close> decides opening it for writing with truncation
  (\<^verbatim>\<open>ioutil.WriteFile\<close>, \<^verbatim>\<open>os.Create\<close>). Directories and writes cut short are outside the
  model.
\<close>

record 'i file_node =
  can_open :: bool
  can_read :: bool
  can_write :: bool
  contents :: "'i content"

text \<open>
  The sqlite database behind \<^verbatim>\<open>ItemsTable\<close>: \<open>sql_open_ok\<close> decides \<^verbatim>\<open>sql.Open\<close>,
  \<open>reachable\<close> whether a statement can be prepared or queried at all, \<open>writable\<close>
  whether executing a writing statement succeeds; \<open>items_table\<close> is the table
  \<^verbatim>\<open>items\<close> in primary-key order, \<open>None\<close> before it is created, and \<open>sequence\<close> the last
  key \<^verbatim>\<open>AUTOINCREMENT\<close> gave out. The database is kept apart from the files of \<open>fs\<close>:
  no handler opens the path \<^verbatim>\<open>ItemsTable\<close> as a file.
\<close>

record database =
  sql_open_ok :: bool
  reachable :: bool
  writable :: bool
  items_table :: "ItemID list option"
  sequence :: int

text \<open>The world a handler runs in: files by path, which absent paths can be
  created, the database, and the lines printed with \<^verbatim>\<open>fmt.Println\<close>.\<close>

record 'i world =
  fs :: "string \<Rightarrow> 'i file_node option"
  can_create :: "string \<Rightarrow> bool"
  db :: database
  stdout :: "string list"

text \<open>The uploaded file of a multipart form (\<^verbatim>\<open>multipart.FileHeader\<close>): \<open>opens\<close>
  decides \<^verbatim>\<open>image.Open()\<close>; reading it yields \<open>data\<close>, or fails after \<open>k\<close> bytes when
  \<open>fail_at\<close> is \<open>Some k\<close>.\<close>

record upload =
  Filename :: string
  opens :: bool
  data :: string
  fail_at :: "nat option"

text \<open>The form of \<^verbatim>\<open>POST /items\<close>; \<open>form_image = None\<close> is a form for which
  \<^verbatim>\<open>c.FormFile("image")\<close> returns an error.\<close>

record add_request =
  form_name :: string
  form_category :: string
  form_image :: "upload option"

datatype error =
    FormFileError | NotJpg | OpenError | ReadError | MarshalError | WriteError
  | SqlOpenError | SqlError | ErrNoRows

datatype 'i body =
    Message string | ItemsBody "'i list" | ItemBody 'i | ErrorBody error | NullBody

text \<open>
  What a handler leaves to the framework: \<open>JSON s b\<close> is \<^verbatim>\<open>c.JSON(s, b)\<close>, \<open>Served\<close> a
  file sent by \<^verbatim>\<open>c.File\<close>, \<open>HTTPError\<close> an \<^verbatim>\<open>echo.HTTPError\<close> returned by the handler,
  \<open>Failed\<close> any other error returned by the handler, \<open>Panicked\<close> a panic.
\<close>

datatype 'i result =
    JSON nat "'i body" | Served "'i content" | HTTPError nat | Failed error | Panicked

text \<open>The status the client sees: echo's default error handler answers 500 for an
  error that is no \<^verbatim>\<open>HTTPError\<close>, and \<^verbatim>\<open>main\<close> installs \<^verbatim>\<open>middleware.Recover()\<close>, which
  turns a panic into such an error.\<close>

fun status :: "'i result \<Rightarrow> nat" where
  "status (JSON s b) = s"
| "status (Served c) = 200"
| "status (HTTPError s) = s"
| "status (Failed e) = 500"
| "status Panicked = 500"

definition ImgDir :: string where "ImgDir = ''images''"
definition ImgDirRelative :: string where "ImgDirRelative = ''../'' @ ImgDir"
definition ItemFile :: string where "ItemFile = ''items.json''"
definition ItemsTable :: string where "ItemsTable = ''../../db/items.db''"

subsection \<open>Operating system and codec\<close>

definition os_Open :: "'i world \<Rightarrow> string \<Rightarrow> 'i file_node option" where
  "os_Open w p =
     (case fs w p of
        None \<Rightarrow> None
      | Some f \<Rightarrow> if can_open f then Some f else None)"

definition os_Stat :: "'i world \<Rightarrow> string \<Rightarrow> bool" where
  "os_Stat w p = (fs w p \<noteq> None)"

definition ioutil_ReadAll :: "'i file_node \<Rightarrow> 'i content option" where
  "ioutil_ReadAll f = (if can_read f then Some (contents f) else None)"

definition ioutil_WriteFile :: "'i world \<Rightarrow> string \<Rightarrow> 'i content \<Rightarrow> 'i world option" where
  "ioutil_WriteFile w p c =
     (case fs w p of
        None \<Rightarrow>
          if can_create w p
          then Some (w\<lparr>fs := (fs w)(p \<mapsto>
                 \<lparr>can_open = True, can_read = True, can_write = True, contents = c\<rparr>)\<rparr>)
          else None
      | Some f \<Rightarrow>
          if can_write f then Some (w\<lparr>fs := (fs w)(p \<mapsto> f\<lparr>contents := c\<rparr>)\<rparr>) else None)"

definition os_Create :: "'i world \<Rightarrow> string \<Rightarrow> 'i world option" where
  "os_Create w p = ioutil_WriteFile w p (Bytes [])"

text \<open>\<^verbatim>\<open>io.Copy(dst, src)\<close> into the file just created at \<open>p\<close>: what could be read of the
  upload is in the file, and the flag tells whether the copy reached the end.\<close>

definition io_Copy :: "'i world \<Rightarrow> string \<Rightarrow> upload \<Rightarrow> 'i world \<times> bool" where
  "io_Copy w p src =
     (let copied = (case fail_at src of None \<Rightarrow> data src | Some k \<Rightarrow> take k (data src))
      in (w\<lparr>fs := (fs w)(p := map_option (\<lambda>f. f\<lparr>contents := Bytes copied\<rparr>) (fs w p))\<rparr>,
          fail_at src = None))"

text \<open>\<^verbatim>\<open>fmt.Println(msg, err)\<close>: the line is kept by its fixed part \<open>msg\<close>.\<close>

definition Println :: "string \<Rightarrow> 'i world \<Rightarrow> 'i world" where
  "Println line w = w\<lparr>stdout := stdout w @ [line]\<rparr>"

text \<open>\<^verbatim>\<open>json.Unmarshal(data, &items)\<close> with its error dropped: \<open>cur\<close> is the value of
  \<^verbatim>\<open>items.Items\<close> before the call.\<close>

definition json_Unmarshal :: "'i content \<Rightarrow> 'i list \<Rightarrow> 'i list" where
  "json_Unmarshal d cur = (case d of Json its \<Rightarrow> its | Bytes b \<Rightarrow> cur)"

text \<open>\<^verbatim>\<open>json.Marshal(items)\<close>: it never fails on a struct of strings; reading the bytes
  back gives the items with their strings coerced to valid UTF-8.\<close>

definition valid_strings :: "Item \<Rightarrow> Item" where
  "valid_strings it =
     \<lparr>Name = toValidUTF8 (Name it), Category = toValidUTF8 (Category it),
      ImageFileName = toValidUTF8 (ImageFileName it)\<rparr>"

definition json_Marshal :: "Item list \<Rightarrow> Item content option" where
  "json_Marshal its = Some (Json (map valid_strings its))"

text \<open>\<^verbatim>\<open>c.File(path)\<close> of echo: a file that cannot be opened is answered by the
  not-found handler, an open one is sent.\<close>

definition c_File :: "'i world \<Rightarrow> string \<Rightarrow> 'i result" where
  "c_File w p = (case os_Open w p of None \<Rightarrow> HTTPError 404 | Some f \<Rightarrow> Served (contents f))"

subsection \<open>Functions shared by the generations\<close>

text \<open>\<^verbatim>\<open>readItems\<close> (\<^verbatim>\<open>main.go\<close>, \<^verbatim>\<open>part_001\<close>).\<close>

definition readItems :: "'i world \<Rightarrow> error + 'i content" where
  "readItems w =
     (case os_Open w ItemFile of
        None \<Rightarrow> Inl OpenError
      | Some jsonFile \<Rightarrow>
          (case ioutil_ReadAll jsonFile of
             None \<Rightarrow> Inl ReadError
           | Some jsonData \<Rightarrow> Inr jsonData))"

text \<open>\<^verbatim>\<open>getItems\<close> (\<^verbatim>\<open>main.go\<close>, \<^verbatim>\<open>part_001\<close>).\<close>

definition getItems :: "'i world \<Rightarrow> 'i result" where
  "getItems w =
     (case os_Open w ItemFile of
        None \<Rightarrow> JSON 400 (ErrorBody OpenError)
      | Some jsonFile \<Rightarrow>
          (case readItems w of
             Inl err \<Rightarrow> JSON 500 (ErrorBody err)
           | Inr jsonData \<Rightarrow> JSON 200 (ItemsBody (json_Unmarshal jsonData []))))"

text \<open>\<^verbatim>\<open>getImg\<close> (all three files).\<close>

definition getImg :: "string \<Rightarrow> 'i world \<Rightarrow> 'i result" where
  "getImg imageFilename w =
     (let imgPath = path_Join [ImgDir, imageFilename] in
      if \<not> strings_HasSuffix imgPath ''.jpg''
      then JSON 400 (Message ''Image path does not end with .jpg'')
      else c_File w (if os_Stat w imgPath then imgPath else path_Join [ImgDir, ''default.jpg'']))"

text \<open>\<^verbatim>\<open>saveImageToLocal\<close> (all three files); \<open>H\<close> is \<^verbatim>\<open>sha256.Sum256\<close>, and \<open>img\<close> the
  parameter \<^verbatim>\<open>image\<close> here and below.\<close>

definition saveImageToLocal :: "(string \<Rightarrow> 8 word list) \<Rightarrow> upload \<Rightarrow> 'i world \<Rightarrow> 'i world" where
  "saveImageToLocal H img w =
     (if \<not> opens img then Println ''Cannot open image: '' w
      else
        let hashedName = H (Filename img);
            imgPath = path_Join [ImgDirRelative, Sprintf_x hashedName @ ''.jpg'']
        in case os_Create w imgPath of
             None \<Rightarrow> Println ''Cannot create image: '' w
           | Some w1 \<Rightarrow>
               (case io_Copy w1 imgPath img of
                  (w2, copied) \<Rightarrow> if copied then w2 else Println ''Cannot copy image: '' w2))"

subsection \<open>\<^verbatim>\<open>main.go\<close>\<close>

definition updateJson_main ::
  "(string \<Rightarrow> 8 word list) \<Rightarrow> string \<Rightarrow> string \<Rightarrow> upload \<Rightarrow> Item world \<Rightarrow> error option \<times> Item world" where
  "updateJson_main H name category img w =
     (let hashedFileName = H (Filename img);
          ext = path_Ext (Filename img)
      in if ext \<noteq> ''.jpg'' then (Some NotJpg, w)
         else case os_Open w ItemFile of
                None \<Rightarrow> (Some OpenError, w)
              | Some jsonFile \<Rightarrow>
                  (case readItems w of
                     Inl err \<Rightarrow> (Some err, w)
                   | Inr jsonData \<Rightarrow>
                       let item = \<lparr>Name = name, Category = category,
                                   ImageFileName = (Sprintf_x hashedFileName @ ext)\<rparr>;
                           items = json_Unmarshal jsonData [] @ [item]
                       in case json_Marshal items of
                            None \<Rightarrow> (Some MarshalError, w)
                          | Some marshaled \<Rightarrow>
                              (case ioutil_WriteFile w ItemFile marshaled of
                                 None \<Rightarrow> (Some WriteError, w)
                               | Some w' \<Rightarrow> (None, w'))))"

definition addItem_main ::
  "(string \<Rightarrow> 8 word list) \<Rightarrow> add_request \<Rightarrow> Item world \<Rightarrow> Item result \<times> Item world" where
  "addItem_main H c w =
     (let name = form_name c; category = form_category c in
      case form_image c of
        None \<Rightarrow> (JSON 400 (ErrorBody FormFileError), w)
      | Some img \<Rightarrow>
          let w1 = snd (updateJson_main H name category img w);
              w2 = saveImageToLocal H img w1
          in (JSON 200 (Message (''item received: '' @ name)), w2))"

text \<open>The loop of \<^verbatim>\<open>getItemsByID\<close>: \<open>i\<close> is the index of the head of the remaining items.\<close>

fun range_find :: "nat \<Rightarrow> 'i list \<Rightarrow> string \<Rightarrow> 'i option" where
  "range_find i [] itemID = None"
| "range_find i (item # items) itemID =
     (if Itoa i = itemID then Some item else range_find (Suc i) items itemID)"

definition getItemsByID_main :: "string \<Rightarrow> 'i world \<Rightarrow> 'i result" where
  "getItemsByID_main itemID w =
     (case os_Open w ItemFile of
        None \<Rightarrow> JSON 400 (ErrorBody OpenError)
      | Some jsonFile \<Rightarrow>
          (case readItems w of
             Inl err \<Rightarrow> JSON 500 (ErrorBody err)
           | Inr jsonData \<Rightarrow>
               (case range_find 0 (json_Unmarshal jsonData []) itemID of
                  Some item \<Rightarrow> JSON 200 (ItemBody item)
                | None \<Rightarrow> JSON 404 NullBody)))"

subsection \<open>\<^verbatim>\<open>part_000\<close>\<close>

definition getItems_part000 :: "'i world \<Rightarrow> 'i result \<times> 'i world" where
  "getItems_part000 w =
     (case os_Open w ''items.json'' of
        None \<Rightarrow> (Failed OpenError, Println ''Cannot open the json file'' w)
      | Some jsonFile \<Rightarrow>
          (case ioutil_ReadAll jsonFile of
             None \<Rightarrow> (Failed ReadError, Println ''Cannot read data'' w)
           | Some jsonData \<Rightarrow> (JSON 200 (ItemsBody (json_Unmarshal jsonData [])), w)))"

definition updateJson_part000 ::
  "(string \<Rightarrow> 8 word list) \<Rightarrow> string \<Rightarrow> string \<Rightarrow> upload \<Rightarrow> Item world \<Rightarrow> Item world" where
  "updateJson_part000 H name category img w =
     (let hashedFileName = H (Filename img) in
      case os_Open w ''items.json'' of
        None \<Rightarrow> Println ''Cannot open the json file: '' w
      | Some jsonFile \<Rightarrow>
          (case ioutil_ReadAll jsonFile of
             None \<Rightarrow> Println ''Cannot read data: '' w
           | Some jsonData \<Rightarrow>
               let item = \<lparr>Name = name, Category = category,
                           ImageFileName = (Sprintf_x hashedFileName @ ''.jpg'')\<rparr>;
                   items = json_Unmarshal jsonData [] @ [item]
               in case json_Marshal items of
                    None \<Rightarrow> Println ''Cannot marshal data: '' w
                  | Some marshaled \<Rightarrow>
                      (case ioutil_WriteFile w ''items.json'' marshaled of
                         None \<Rightarrow> Println ''Cannot write data: '' w
                       | Some w' \<Rightarrow> w')))"

definition addItem_part000 ::
  "(string \<Rightarrow> 8 word list) \<Rightarrow> add_request \<Rightarrow> Item world \<Rightarrow> Item result \<times> Item world" where
  "addItem_part000 H c w =
     (let name = form_name c; category = form_category c in
      case form_image c of
        None \<Rightarrow> (JSON 400 (ErrorBody FormFileError), w)
      | Some img \<Rightarrow>
          let w1 = updateJson_part000 H name category img w;
              w2 = saveImageToLocal H img w1
          in (JSON 200 (Message (''item received: '' @ name)), w2))"

subsection \<open>\<^verbatim>\<open>part_001\<close>\<close>

text \<open>
  The statements of \<^verbatim>\<open>part_001\<close> on the database. \<^verbatim>\<open>CREATE TABLE IF NOT EXISTS\<close> creates
  the table when it is missing and the database can be written. \<^verbatim>\<open>INSERT\<close> appends a
  row under a new key, chosen as sqlite does for an \<^verbatim>\<open>AUTOINCREMENT\<close> column: one more
  than the larger of the largest key in the table and the recorded \<open>sequence\<close>; when
  either of the two has reached the largest 64-bit key the statement fails and the
  table is as before. The handlers drop the errors of both executions.
\<close>

definition exec_create :: "database \<Rightarrow> database" where
  "exec_create d =
     (if writable d \<and> items_table d = None then d\<lparr>items_table := Some []\<rparr> else d)"

definition MAX_ROWID :: int where
  "MAX_ROWID = 0x7fffffffffffffff"

definition exec_insert :: "database \<Rightarrow> string \<Rightarrow> string \<Rightarrow> string \<Rightarrow> database" where
  "exec_insert d name category imageFileName =
     (case items_table d of
        None \<Rightarrow> d
      | Some rows \<Rightarrow>
          let top = (if rows = [] then 0 else ID (last rows))
          in if \<not> writable d then d
             else if MAX_ROWID \<le> top \<or> sequence d = MAX_ROWID then d
             else
               let v = max (top + 1) (sequence d + 1)
               in d\<lparr>items_table := Some (rows @
                      [\<lparr>Name = name, Category = category, ImageFileName = imageFileName,
                        ID = v\<rparr>]),
                    sequence := v\<rparr>)"

text \<open>A call that may panic.\<close>

datatype 'a go = Return 'a | Panic

text \<open>\<^verbatim>\<open>addItemToDatabase\<close>: a failed \<^verbatim>\<open>Prepare\<close> of the \<^verbatim>\<open>INSERT\<close> (the table is missing)
  leaves \<^verbatim>\<open>statement\<close> nil, and \<^verbatim>\<open>statement.Exec\<close> panics on it.\<close>

definition addItemToDatabase ::
  "(string \<Rightarrow> 8 word list) \<Rightarrow> string \<Rightarrow> string \<Rightarrow> upload \<Rightarrow> 'i world \<Rightarrow> error option go \<times> 'i world" where
  "addItemToDatabase H name category img w =
     (let hashedFileName = H (Filename img);
          ext = path_Ext (Filename img)
      in if ext \<noteq> ''.jpg'' then (Return (Some NotJpg), w)
         else if \<not> sql_open_ok (db w) then (Return (Some SqlOpenError), w)
         else if \<not> reachable (db w) then (Return (Some SqlError), w)
         else
           let d1 = exec_create (db w);
               item = \<lparr>Name = name, Category = category,
                       ImageFileName = (Sprintf_x hashedFileName @ ''.jpg'')\<rparr>
           in if items_table d1 = None then (Panic, w\<lparr>db := d1\<rparr>)
              else (Return None,
                    w\<lparr>db := exec_insert d1 (Name item) (Category item) (ImageFileName item)\<rparr>))"

definition addItem_part001 ::
  "(string \<Rightarrow> 8 word list) \<Rightarrow> add_request \<Rightarrow> 'i world \<Rightarrow> 'i result \<times> 'i world" where
  "addItem_part001 H c w =
     (let name = form_name c; category = form_category c in
      case form_image c of
        None \<Rightarrow> (JSON 400 (ErrorBody FormFileError), w)
      | Some img \<Rightarrow>
          (case addItemToDatabase H name category img w of
             (Panic, w1) \<Rightarrow> (Panicked, w1)
           | (Return (Some err), w1) \<Rightarrow> (JSON 500 (ErrorBody err), w1)
           | (Return None, w1) \<Rightarrow>
               (JSON 200 (Message (''item received: '' @ name)), saveImageToLocal H img w1)))"

text \<open>
  \<^verbatim>\<open>SELECT * FROM items WHERE id = ?\<close> with the route parameter bound as text:
  \<open>to_key\<close> is the conversion sqlite applies to the text before it compares it with
  the integer column, \<open>None\<close> for a text that is no number.
\<close>

definition query_row :: "(string \<Rightarrow> int option) \<Rightarrow> database \<Rightarrow> string \<Rightarrow> error + ItemID" where
  "query_row to_key d itemID =
     (case items_table d of
        None \<Rightarrow> Inl SqlError
      | Some rows \<Rightarrow>
          if \<not> reachable d then Inl SqlError
          else (case find (\<lambda>r. to_key itemID = Some (ID r)) rows of
                  None \<Rightarrow> Inl ErrNoRows
                | Some r \<Rightarrow> Inr r))"

definition getItemByID_part001 ::
  "(string \<Rightarrow> int option) \<Rightarrow> string \<Rightarrow> 'i world \<Rightarrow> ItemID result" where
  "getItemByID_part001 to_key itemID w =
     (if \<not> sql_open_ok (db w) then Failed SqlOpenError
      else case query_row to_key (db w) itemID of
             Inl err \<Rightarrow>
               if err = ErrNoRows then JSON 404 (ErrorBody err) else JSON 500 (ErrorBody err)
           | Inr item \<Rightarrow> JSON 200 (ItemBody item))"

text \<open>
  The \<^verbatim>\<open>LIKE\<close> function of sqlite (\<^verbatim>\<open>likeFunc\<close> and \<^verbatim>\<open>patternCompare\<close> of \<^verbatim>\<open>func.c\<close>, with
  \<^verbatim>\<open>sqlite3Utf8Read\<close> of \<^verbatim>\<open>utf.c\<close>), which the query of \<^verbatim>\<open>searchItems\<close> runs on every row. It
  works on the bytes of pattern and text up to their first NUL byte (\<open>cstr\<close>), reads
  them character by character, and answers one of three values; a code point is a
  \<open>nat\<close> below \<open>2 ^ 32\<close>.
\<close>

datatype cmp = SQLITE_MATCH | SQLITE_NOMATCH | SQLITE_NOWILDCARDMATCH

definition cstr :: "string \<Rightarrow> string" where
  "cstr s = takeWhile (\<lambda>b. of_char b \<noteq> (0 :: nat)) s"

definition sqlite3Utf8Trans1 :: "nat list" where
  "sqlite3Utf8Trans1 =
     [0x00, 0x01, 0x02, 0x03, 0x04, 0x05, 0x06, 0x07,
      0x08, 0x09, 0x0a, 0x0b, 0x0c, 0x0d, 0x0e, 0x0f,
      0x10, 0x11, 0x12, 0x13, 0x14, 0x15, 0x16, 0x17,
      0x18, 0x19, 0x1a, 0x1b, 0x1c, 0x1d, 0x1e, 0x1f,
      0x00, 0x01, 0x02, 0x03, 0x04, 0x05, 0x06, 0x07,
      0x08, 0x09, 0x0a, 0x0b, 0x0c, 0x0d, 0x0e, 0x0f,
      0x00, 0x01, 0x02, 0x03, 0x04, 0x05, 0x06, 0x07,
      0x00, 0x01, 0x02, 0x03, 0x00, 0x01, 0x00, 0x00]"

text \<open>The loop of \<^verbatim>\<open>sqlite3Utf8Read\<close> after a lead byte: every following byte of the
  form \<open>10xxxxxx\<close> is shifted into the 32-bit accumulator, however many there are.\<close>

fun utf8_cont :: "nat \<Rightarrow> string \<Rightarrow> nat \<times> string" where
  "utf8_cont c [] = (c, [])"
| "utf8_cont c (b # z) =
     (if in_range 0x80 0xBF b
      then utf8_cont ((c * 64 + of_char b mod 64) mod 2 ^ 32) z
      else (c, b # z))"

text \<open>One character and the rest of the text; \<open>0\<close> at the end of the text. A byte below
  \<open>0xC0\<close> is a character of its own; a result below \<open>0x80\<close>, a surrogate, \<open>0xFFFE\<close> and
  \<open>0xFFFF\<close> are replaced by \<open>0xFFFD\<close>.\<close>

definition sqlite3Utf8Read :: "string \<Rightarrow> nat \<times> string" where
  "sqlite3Utf8Read z =
     (case z of
        [] \<Rightarrow> (0, [])
      | b # z' \<Rightarrow>
          if (0xC0 :: nat) \<le> of_char b
          then (case utf8_cont (sqlite3Utf8Trans1 ! (of_char b - 0xC0)) z' of
                  (c, rest) \<Rightarrow>
                    (if c < 0x80 \<or> (0xD800 \<le> c \<and> c \<le> 0xDFFF) \<or> c = 0xFFFE \<or> c = 0xFFFF
                     then 0xFFFD else c, rest))
          else (of_char b, z'))"

definition sqlite3Tolower :: "nat \<Rightarrow> nat" where
  "sqlite3Tolower c = (if 0x41 \<le> c \<and> c \<le> 0x5A then c + 0x20 else c)"

definition sqlite3Toupper :: "nat \<Rightarrow> nat" where
  "sqlite3Toupper c = (if 0x61 \<le> c \<and> c \<le> 0x7A then c - 0x20 else c)"

text \<open>
  \<^verbatim>\<open>patternCompare\<close> for \<^verbatim>\<open>LIKE\<close> without \<^verbatim>\<open>ESCAPE\<close>: \<open>%\<close> is \<open>0x25\<close>, \<open>_\<close> is \<open>0x5F\<close>, letters
  of ASCII compare without regard to case.
  \<^item> \<open>patternCompare\<close> is the outer loop over the pattern;
  \<^item> \<open>match_all\<close> is the branch taken after a \<open>%\<close>: it skips the \<open>%\<close> and \<open>_\<close> that follow
    (one character of the text for each \<open>_\<close>) and then looks for the next character
    \<open>c\<close> of the pattern in the text;
  \<^item> \<open>search_ascii\<close> is that search for \<open>c\<close> below \<open>0x80\<close>, byte by byte (\<^verbatim>\<open>strcspn\<close>);
  \<^item> \<open>search_wide\<close> is that search for any other \<open>c\<close>, character by character.

  A search that reaches the end of the text answers \<open>SQLITE_NOWILDCARDMATCH\<close>, which
  ends every search around it.
\<close>

function patternCompare :: "string \<Rightarrow> string \<Rightarrow> cmp"
  and match_all :: "string \<Rightarrow> string \<Rightarrow> cmp"
  and search_ascii :: "nat \<Rightarrow> string \<Rightarrow> string \<Rightarrow> cmp"
  and search_wide :: "nat \<Rightarrow> string \<Rightarrow> string \<Rightarrow> cmp"
where
  "patternCompare zPattern zString =
     (case sqlite3Utf8Read zPattern of
        (c, zPattern') \<Rightarrow>
          if c = 0 then (if zString = [] then SQLITE_MATCH else SQLITE_NOMATCH)
          else if c = 0x25 then match_all zPattern' zString
          else (case sqlite3Utf8Read zString of
                  (c2, zString') \<Rightarrow>
                    if c = c2 then patternCompare zPattern' zString'
                    else if c < 0x80 \<and> c2 < 0x80 \<and> sqlite3Tolower c = sqlite3Tolower c2
                    then patternCompare zPattern' zString'
                    else if c = 0x5F \<and> c2 \<noteq> 0 then patternCompare zPattern' zString'
                    else SQLITE_NOMATCH))"
| "match_all zPattern zString =
     (case sqlite3Utf8Read zPattern of
        (c, zPattern') \<Rightarrow>
          if c = 0x25 then match_all zPattern' zString
          else if c = 0x5F then
            (case sqlite3Utf8Read zString of
               (c2, zString') \<Rightarrow>
                 if c2 = 0 then SQLITE_NOWILDCARDMATCH else match_all zPattern' zString')
          else if c = 0 then SQLITE_MATCH
          else if c < 0x80 then search_ascii c zPattern' zString
          else search_wide c zPattern' zString)"
| "search_ascii c zPattern zString =
     (case dropWhile (\<lambda>b. of_char b \<noteq> sqlite3Toupper c \<and> of_char b \<noteq> sqlite3Tolower c)
             zString of
        [] \<Rightarrow> SQLITE_NOWILDCARDMATCH
      | b # zString' \<Rightarrow>
          (case patternCompare zPattern zString' of
             SQLITE_NOMATCH \<Rightarrow> search_ascii c zPattern zString'
           | SQLITE_MATCH \<Rightarrow> SQLITE_MATCH
           | SQLITE_NOWILDCARDMATCH \<Rightarrow> SQLITE_NOWILDCARDMATCH))"
| "search_wide c zPattern zString =
     (case sqlite3Utf8Read zString of
        (c2, zString') \<Rightarrow>
          if c2 = 0 then SQLITE_NOWILDCARDMATCH
          else if c2 \<noteq> c then search_wide c zPattern zString'
          else (case patternCompare zPattern zString' of
                  SQLITE_NOMATCH \<Rightarrow> search_wide c zPattern zString'
                | SQLITE_MATCH \<Rightarrow> SQLITE_MATCH
                | SQLITE_NOWILDCARDMATCH \<Rightarrow> SQLITE_NOWILDCARDMATCH))"
  by pat_completeness auto
termination
proof -
  have cont: "length (snd (utf8_cont c z)) \<le> length z" for c z
    by (induction z arbitrary: c) (auto simp: le_SucI)
  have rle: "length z' \<le> length z" if "sqlite3Utf8Read z = (c, z')" for z c z'
    using that cont[of "sqlite3Utf8Trans1 ! (of_char (hd z) - 0xC0)" "tl z"]
    by (cases z) (auto simp: sqlite3Utf8Read_def split: if_splits prod.splits)
  have rd: "length z' < length z" if "sqlite3Utf8Read z = (c, z')" "c \<noteq> 0" for z c z'
    using that cont[of "sqlite3Utf8Trans1 ! (of_char (hd z) - 0xC0)" "tl z"]
    by (cases z) (auto simp: sqlite3Utf8Read_def split: if_splits prod.splits)
  have rd1: "length y < length p" if "(c, y) = sqlite3Utf8Read p" "0 < c" for c y p
    using rd[of p c y] that by simp
  have rd2: "length y + length ya < length p + length s"
    if "(c, y) = sqlite3Utf8Read p" "(c2, ya) = sqlite3Utf8Read s" "0 < c" for c y p c2 ya s
    using rd[of p c y] rle[of s c2 ya] that by simp
  have dw: "length s' < length s" if "dropWhile P s = b # s'" for P s b and s' :: string
    using length_dropWhile_le[of P s] that by simp
  show ?thesis
    apply (relation "measure (\<lambda>x. case x of
              Inl (Inl (p, s)) \<Rightarrow> length p + length s
            | Inl (Inr (p, s)) \<Rightarrow> length p + length s
            | Inr (Inl (c, p, s)) \<Rightarrow> length p + length s
            | Inr (Inr (c, p, s)) \<Rightarrow> length p + length s)")
    apply simp
    apply (auto intro: rd1 rd2 dw)
    done
qed

text \<open>\<^verbatim>\<open>likeFunc\<close>: a pattern of more than \<^verbatim>\<open>SQLITE_MAX_LIKE_PATTERN_LENGTH\<close> bytes is the
  error \<^verbatim>\<open>LIKE or GLOB pattern too complex\<close>, whatever the text.\<close>

definition SQLITE_MAX_LIKE_PATTERN_LENGTH :: nat where
  "SQLITE_MAX_LIKE_PATTERN_LENGTH = 50000"

definition likeFunc :: "string \<Rightarrow> string \<Rightarrow> error + bool" where
  "likeFunc zB zA =
     (if SQLITE_MAX_LIKE_PATTERN_LENGTH < length zB then Inl SqlError
      else Inr (patternCompare (cstr zB) (cstr zA) = SQLITE_MATCH))"

text \<open>
  \<^verbatim>\<open>LIKE\<close> as the specification words it, on the characters of pattern and text: \<open>%\<close>
  stands for any run of characters, \<open>_\<close> for any one character, every other character
  for itself, letters of ASCII without regard to case; nothing escapes \<open>%\<close> and \<open>_\<close>.
  \<open>utf8_chars\<close> is the text as the characters sqlite reads from it.
\<close>

function utf8_chars :: "string \<Rightarrow> nat list" where
  "utf8_chars z =
     (case sqlite3Utf8Read z of (c, z') \<Rightarrow> if c = 0 then [] else c # utf8_chars z')"
  by pat_completeness auto
termination
proof (relation "measure length")
  fix z :: string and c z'
  assume r: "(c, z') = sqlite3Utf8Read z" and "c \<noteq> 0"
  have cont: "length (snd (utf8_cont c z)) \<le> length z" for c z
    by (induction z arbitrary: c) (auto simp: le_SucI)
  from r \<open>c \<noteq> 0\<close> cont[of "sqlite3Utf8Trans1 ! (of_char (hd z) - 0xC0)" "tl z"]
  have "length z' < length z"
    by (cases z) (auto simp: sqlite3Utf8Read_def split: if_splits prod.splits)
  then show "(z', z) \<in> measure length" by simp
qed simp

definition ascii_fold :: "nat \<Rightarrow> nat" where
  "ascii_fold c = (if 0x41 \<le> c \<and> c \<le> 0x5A then c + 0x20 else c)"

fun sql_like :: "nat list \<Rightarrow> nat list \<Rightarrow> bool" where
  "sql_like [] s = (s = [])"
| "sql_like (p # ps) [] = (p = 0x25 \<and> sql_like ps [])"
| "sql_like (p # ps) (c # cs) =
     (if p = 0x25 then sql_like ps (c # cs) \<or> sql_like (p # ps) cs
      else (p = 0x5F \<or> ascii_fold p = ascii_fold c) \<and> sql_like ps cs)"

text \<open>
  What one call of \<^verbatim>\<open>rows.Next()\<close> finds in the rest of the table: the next row whose
  name the \<^verbatim>\<open>WHERE\<close> clause accepts, with the rows after it; the end of the table; or an
  error of the statement, which here is the error of \<^verbatim>\<open>likeFunc\<close>. In the last two
  cases \<^verbatim>\<open>rows.Next()\<close> is false. A row of the table always scans into an \<^verbatim>\<open>Item\<close>.
\<close>

datatype next_row = NextRow ItemID "ItemID list" | NoMoreRows | NextError error

fun rows_Next :: "string \<Rightarrow> ItemID list \<Rightarrow> next_row" where
  "rows_Next pattern [] = NoMoreRows"
| "rows_Next pattern (r # tbl) =
     (case likeFunc pattern (Name r) of
        Inl err \<Rightarrow> NextError err
      | Inr matches \<Rightarrow> if matches then NextRow r tbl else rows_Next pattern tbl)"

text \<open>The loop \<^verbatim>\<open>for rows.Next()\<close> of \<^verbatim>\<open>searchItems\<close>. It ends when \<^verbatim>\<open>rows.Next()\<close> is false;
  the handler never reads \<^verbatim>\<open>rows.Err()\<close>, so after an error it goes on as after the last
  row, with the items appended so far.\<close>

function scan_rows :: "string \<Rightarrow> ItemID list \<Rightarrow> ItemID list \<Rightarrow> ItemID list" where
  "scan_rows pattern tbl items =
     (case rows_Next pattern tbl of
        NextRow item tbl' \<Rightarrow> scan_rows pattern tbl' (items @ [item])
      | NoMoreRows \<Rightarrow> items
      | NextError err \<Rightarrow> items)"
  by pat_completeness auto
termination
proof (relation "measure (\<lambda>(pattern, tbl, items). length tbl)")
  fix pattern :: string and tbl items :: "ItemID list" and item tbl'
  assume n: "rows_Next pattern tbl = NextRow item tbl'"
  have "rows_Next pattern t = NextRow item tbl' \<Longrightarrow> length tbl' < length t" for t
    by (induction t) (auto split: sum.splits if_splits)
  from this[OF n]
  show "((pattern, tbl', items @ [item]), (pattern, tbl, items))
          \<in> measure (\<lambda>(pattern, tbl, items). length tbl)"
    by simp
qed simp

text \<open>\<^verbatim>\<open>searchItems\<close>: after a failed \<^verbatim>\<open>sql.Open\<close>, which is only logged, \<^verbatim>\<open>db\<close> is nil and
  \<^verbatim>\<open>db.Query\<close> panics. The body of the answer is the slice \<^verbatim>\<open>items\<close>.\<close>

definition searchItems :: "string \<Rightarrow> 'i world \<Rightarrow> ItemID result" where
  "searchItems keyword w =
     (if \<not> sql_open_ok (db w) then Panicked
      else case items_table (db w) of
             None \<Rightarrow> JSON 500 (ErrorBody SqlError)
           | Some tbl \<Rightarrow>
               if \<not> reachable (db w) then JSON 500 (ErrorBody SqlError)
               else JSON 200 (ItemsBody (scan_rows (''%'' @ keyword @ ''%'') tbl [])))"

subsection \<open>Runs and example inputs\<close>

text \<open>A sequence of add requests served one after the other by \<^verbatim>\<open>part_001\<close>.\<close>

definition adds_part001 ::
  "(string \<Rightarrow> 8 word list) \<Rightarrow> add_request list \<Rightarrow> 'i world \<Rightarrow> 'i world" where
  "adds_part001 H cs w = foldl (\<lambda>w c. snd (addItem_part001 H c w)) w cs"

text \<open>A stand-in for \<^verbatim>\<open>sha256.Sum256\<close> in the examples: the first two bytes of the
  input. The theorems hold for every function \<open>H\<close>.\<close>

definition toy_hash :: "string \<Rightarrow> 8 word list" where
  "toy_hash s = map (\<lambda>c. of_nat (of_char c)) (take 2 s)"

definition regular :: "'i content \<Rightarrow> 'i file_node" where
  "regular c = \<lparr>can_open = True, can_read = True, can_write = True, contents = c\<rparr>"

definition empty_db :: database where
  "empty_db = \<lparr>sql_open_ok = True, reachable = True, writable = True,
                items_table = Some [], sequence = 0\<rparr>"

text \<open>A world with no file at all, and one whose catalog file holds no item.\<close>

definition fresh_world :: "'i world" where
  "fresh_world = \<lparr>fs = (\<lambda>p. None), can_create = (\<lambda>p. True), db = empty_db, stdout = []\<rparr>"

definition empty_catalog :: "'i world" where
  "empty_catalog = fresh_world\<lparr>fs := [ItemFile \<mapsto> regular (Json [])]\<rparr>"

definition shoes_jpg :: upload where
  "shoes_jpg = \<lparr>Filename = ''shoes.jpg'', opens = True, data = ''JPEG'', fail_at = None\<rparr>"

definition shoes :: add_request where
  "shoes = \<lparr>form_name = ''shoes'', form_category = ''fashion'', form_image = Some shoes_jpg\<rparr>"

text \<open>An upload that is no \<^verbatim>\<open>.jpg\<close>, a database that refuses writes, an upload that
  cannot be opened.\<close>

definition cat_png :: add_request where
  "cat_png = \<lparr>form_name = ''cat'', form_category = ''pets'',
     form_image = Some \<lparr>Filename = ''cat.png'', opens = True, data = ''PNG'', fail_at = None\<rparr>\<rparr>"

definition readonly_world :: "'i world" where
  "readonly_world = empty_catalog\<lparr>db := empty_db\<lparr>writable := False\<rparr>\<rparr>"

definition broken_jpg :: upload where
  "broken_jpg = shoes_jpg\<lparr>opens := False\<rparr>"

definition broken_shoes :: add_request where
  "broken_shoes = shoes\<lparr>form_image := Some broken_jpg\<rparr>"

text \<open>A second upload under the file name of \<open>shoes_jpg\<close>, with other bytes.\<close>

definition shoes_again :: add_request where
  "shoes_again = \<lparr>form_name = ''boots'', form_category = ''fashion'',
     form_image = Some (shoes_jpg\<lparr>data := ''OTHER''\<rparr>)\<rparr>"

text \<open>A catalog file with two items, one that opens but cannot be read, a table with one
  row, and a key conversion that knows the texts \<open>1\<close> and \<open>2\<close>.\<close>

definition boots :: Item where
  "boots = \<lparr>Name = ''boots'', Category = ''fashion'', ImageFileName = ''aa.jpg''\<rparr>"

definition hat :: Item where
  "hat = \<lparr>Name = ''hat'', Category = ''fashion'', ImageFileName = ''bb.jpg''\<rparr>"

definition two_items :: "Item world" where
  "two_items = fresh_world\<lparr>fs := [ItemFile \<mapsto> regular (Json [boots, hat])]\<rparr>"

definition unreadable :: "'i world" where
  "unreadable = fresh_world\<lparr>fs := [ItemFile \<mapsto> (regular (Json []))\<lparr>can_read := False\<rparr>]\<rparr>"

definition decimal_key :: "string \<Rightarrow> int option" where
  "decimal_key s = (if s = ''1'' then Some 1 else if s = ''2'' then Some 2 else None)"

definition boots_row :: ItemID where
  "boots_row = \<lparr>Name = ''boots'', Category = ''fashion'', ImageFileName = ''aa.jpg'', ID = 1\<rparr>"

definition one_row :: "'i world" where
  "one_row = fresh_world\<lparr>db := empty_db\<lparr>items_table := Some [boots_row], sequence := 1\<rparr>\<rparr>"

text \<open>A table with two rows; an image directory with one image, without and with the
  default image.\<close>

definition hat_row :: ItemID where
  "hat_row = \<lparr>Name = ''hat'', Category = ''fashion'', ImageFileName = ''bb.jpg'', ID = 2\<rparr>"

definition two_rows :: "'i world" where
  "two_rows = fresh_world\<lparr>db := empty_db\<lparr>items_table := Some [boots_row, hat_row], sequence := 2\<rparr>\<rparr>"

definition gallery :: "'i world" where
  "gallery = fresh_world\<lparr>fs := [''images/a.jpg'' \<mapsto> regular (Bytes ''JPEG'')]\<rparr>"

definition gallery_default :: "'i world" where
  "gallery_default = fresh_world\<lparr>fs := [''images/a.jpg'' \<mapsto> regular (Bytes ''JPEG''),
     ''images/default.jpg'' \<mapsto> regular (Bytes ''DEFAULT'')]\<rparr>"

section \<open>Properties of the library functions\<close>

lemma strings_HasSuffix_iff: "strings_HasSuffix s suf \<longleftrightarrow> suffix suf s"
proof
  assume "strings_HasSuffix s suf"
  then have "drop (length s - length suf) s = suf"
    by (simp add: strings_HasSuffix_def)
  then have "s = take (length s - length suf) s @ suf"
    by (metis append_take_drop_id)
  then show "suffix suf s"
    by (metis suffixI)
next
  assume "suffix suf s"
  then obtain q where "s = q @ suf"
    by (auto simp: suffix_def)
  then show "strings_HasSuffix s suf"
    by (simp add: strings_HasSuffix_def)
qed

lemma ext_scan_nonempty:
  "ext_scan r acc = e \<Longrightarrow> e \<noteq> [] \<Longrightarrow>
     \<exists>r1 r2. r = r1 @ CHR ''.'' # r2 \<and> e = CHR ''.'' # rev r1 @ acc \<and> CHR ''.'' \<notin> set r1"
proof (induction r acc rule: ext_scan.induct)
  case (1 acc)
  then show ?case by simp
next
  case (2 c cs acc)
  show ?case
  proof (cases "c = CHR ''/''")
    case True
    with 2 show ?thesis by simp
  next
    case False
    show ?thesis
    proof (cases "c = CHR ''.''")
      case True
      with 2 False have "e = CHR ''.'' # acc" by simp
      with True show ?thesis by (intro exI[of _ "[]"] exI[of _ cs]) simp
    next
      case dot: False
      with 2 False have "ext_scan cs (c # acc) = e" by simp
      from "2.IH"[OF False dot this "2.prems"(2)]
      obtain r1 r2 where "cs = r1 @ CHR ''.'' # r2" "e = CHR ''.'' # rev r1 @ c # acc"
        "CHR ''.'' \<notin> set r1" by blast
      with dot show ?thesis
        by (intro exI[of _ "c # r1"] exI[of _ r2]) simp
    qed
  qed
qed

lemma path_Ext_jpg_iff: "path_Ext p = ''.jpg'' \<longleftrightarrow> suffix ''.jpg'' p"
proof
  assume "path_Ext p = ''.jpg''"
  then have "ext_scan (rev p) [] = ''.jpg''"
    by (simp add: path_Ext_def)
  from ext_scan_nonempty[OF this]
  obtain r1 r2 where r: "rev p = r1 @ CHR ''.'' # r2" and e: "''.jpg'' = CHR ''.'' # rev r1 @ []"
    by auto
  from e have "rev r1 = ''jpg''" by simp
  then have "r1 = rev ''jpg''" by (metis rev_rev_ident)
  with r have "rev p = rev ''.jpg'' @ r2" by simp
  then have "p = rev r2 @ ''.jpg''" by (metis rev_append rev_rev_ident)
  then show "suffix ''.jpg'' p" by (metis suffixI)
next
  assume "suffix ''.jpg'' p"
  then obtain q where "p = q @ ''.jpg''" by (auto simp: suffix_def)
  then show "path_Ext p = ''.jpg''" by (simp add: path_Ext_def)
qed

lemma hexdigit_in: "n < 16 \<Longrightarrow> hexdigit n \<in> set ''0123456789abcdef''"
  unfolding hexdigit_def by (rule nth_mem) simp

lemma Sprintf_x_chars: "set (Sprintf_x h) \<subseteq> set ''0123456789abcdef''"
proof -
  have "hexdigit (unat b div 16) \<in> set ''0123456789abcdef''
      \<and> hexdigit (unat b mod 16) \<in> set ''0123456789abcdef''" for b :: "8 word"
  proof -
    have "unat b < 256" using unsigned_less[of b, where ?'a = nat] by simp
    then have "unat b div 16 < 16" by simp
    then show ?thesis by (intro conjI hexdigit_in) simp_all
  qed
  then show ?thesis
    unfolding Sprintf_x_def by (induction h) auto
qed

lemma Sprintf_x_no_slash: "CHR ''/'' \<notin> set (Sprintf_x h)"
  using Sprintf_x_chars[of h] by auto

lemma Sprintf_x_ascii: "c \<in> set (Sprintf_x h) \<Longrightarrow> (of_char c :: nat) < 128"
  using Sprintf_x_chars[of h] by auto

lemma split_slash_plain: "CHR ''/'' \<notin> set n \<Longrightarrow> split_slash n = [n]"
  by (induction n) auto

lemma toValidUTF8_ascii: "\<forall>c\<in>set s. (of_char c :: nat) < 128 \<Longrightarrow> toValidUTF8 s = s"
  by (induction s) (auto simp: decode_size_def)

lemma split_slash_nonempty: "split_slash p \<noteq> []"
  by (cases p) (auto split: list.splits)

lemma split_slash_jpg:
  "split_slash (xs @ ''.jpg'') = butlast (split_slash xs) @ [last (split_slash xs) @ ''.jpg'']"
proof (induction xs)
  case Nil
  show ?case by simp
next
  case (Cons c xs)
  obtain s S where S: "split_slash xs = s # S"
    using split_slash_nonempty[of xs] by (cases "split_slash xs") auto
  with Cons show ?case
    by (cases S) auto
qed

lemma join_slash_snoc:
  "join_slash (ys @ [e]) = (if ys = [] then e else join_slash ys @ CHR ''/'' # e)"
  by (induction ys rule: join_slash.induct) auto

lemma path_Join_plain:
  assumes "CHR ''/'' \<notin> set n" "n \<noteq> []" "n \<noteq> ''.''" "n \<noteq> ''..''"
  shows "path_Join [ImgDir, n] = ''images/'' @ n"
    and "path_Join [ImgDirRelative, n] = ''../images/'' @ n"
  using assms
  by (simp_all add: path_Join_def path_Clean_def ImgDir_def ImgDirRelative_def
      split_slash_plain clean_step_def)

lemma path_Join_jpg:
  assumes "suffix ''.jpg'' name"
  shows "suffix ''.jpg'' (path_Join [ImgDir, name])"
proof -
  from assms obtain q where q: "name = q @ ''.jpg''"
    by (auto simp: suffix_def)
  define xs where "xs = ''images/'' @ q"
  define e where "e = last (split_slash xs) @ ''.jpg''"
  define st where "st = foldl (clean_step False) [] (butlast (split_slash xs))"
  have e: "e \<noteq> []" "e \<noteq> ''.''" "e \<noteq> ''..''"
    by (auto simp: e_def append_eq_Cons_conv)
  have p: "join_slash [ImgDir, name] = xs @ ''.jpg''"
    by (simp add: ImgDir_def q xs_def)
  have "foldl (clean_step False) [] (split_slash (xs @ ''.jpg'')) = e # st"
    using e by (simp add: split_slash_jpg e_def[symmetric] st_def clean_step_def)
  then have "path_Clean (xs @ ''.jpg'') = join_slash (rev st @ [e])"
    by (simp add: path_Clean_def xs_def)
  moreover have "suffix ''.jpg'' (join_slash (rev st @ [e]))"
    by (simp add: join_slash_snoc e_def suffix_def)
  moreover have "path_Join [ImgDir, name] = path_Clean (xs @ ''.jpg'')"
    using p by (simp add: path_Join_def ImgDir_def)
  ultimately show ?thesis
    by simp
qed

lemma hexdigit_decimal_all: "\<forall>n\<in>set [0..<10]. of_char (hexdigit n) = (48 + n :: nat)"
  by (simp add: upt_rec hexdigit_def)

lemma hexdigit_decimal: "n < 10 \<Longrightarrow> of_char (hexdigit n) = (48 + n :: nat)"
  using hexdigit_decimal_all by simp

lemma Itoa_nonempty: "Itoa n \<noteq> []"
  by (subst Itoa.simps) simp

lemma Itoa_inj: "Itoa m = Itoa n \<Longrightarrow> m = n"
proof (induction m arbitrary: n rule: Itoa.induct)
  case (1 m)
  show ?case
  proof (cases "m < 10")
    case True
    then have m: "Itoa m = [hexdigit m]" by (subst Itoa.simps) simp
    show ?thesis
    proof (cases "n < 10")
      case n: True
      then have "Itoa n = [hexdigit n]" by (subst Itoa.simps) simp
      with m "1.prems" have "of_char (hexdigit m) = (of_char (hexdigit n) :: nat)" by simp
      with True n show ?thesis by (simp add: hexdigit_decimal)
    next
      case False
      then have "Itoa n = Itoa (n div 10) @ [hexdigit (n mod 10)]" by (subst Itoa.simps) simp
      with m "1.prems" Itoa_nonempty[of "n div 10"] show ?thesis by (cases "Itoa (n div 10)") auto
    qed
  next
    case False
    then have m: "Itoa m = Itoa (m div 10) @ [hexdigit (m mod 10)]" by (subst Itoa.simps) simp
    show ?thesis
    proof (cases "n < 10")
      case True
      then have "Itoa n = [hexdigit n]" by (subst Itoa.simps) simp
      with m "1.prems" Itoa_nonempty[of "m div 10"] show ?thesis by (cases "Itoa (m div 10)") auto
    next
      case n: False
      then have "Itoa n = Itoa (n div 10) @ [hexdigit (n mod 10)]" by (subst Itoa.simps) simp
      with m "1.prems" have eq: "Itoa (m div 10) = Itoa (n div 10)"
        and d: "hexdigit (m mod 10) = hexdigit (n mod 10)" by simp_all
      from "1.IH"[OF False eq] have "m div 10 = n div 10" .
      moreover from d have "of_char (hexdigit (m mod 10)) = (of_char (hexdigit (n mod 10)) :: nat)"
        by simp
      then have "m mod 10 = n mod 10" by (simp add: hexdigit_decimal)
      ultimately show ?thesis by (metis div_mult_mod_eq)
    qed
  qed
qed

lemma range_find_hit:
  "i < length items \<Longrightarrow> range_find k items (Itoa (k + i)) = Some (items ! i)"
proof (induction items arbitrary: k i)
  case Nil
  then show ?case by simp
next
  case (Cons x xs)
  show ?case
  proof (cases i)
    case 0
    then show ?thesis by simp
  next
    case (Suc j)
    with Cons.prems have "j < length xs" by simp
    from Cons.IH[OF this, of "Suc k"] Suc show ?thesis
      by (auto dest: Itoa_inj)
  qed
qed

lemma range_find_Some:
  "range_find k items itemID = Some x \<Longrightarrow>
     \<exists>i<length items. itemID = Itoa (k + i) \<and> x = items ! i"
proof (induction items arbitrary: k)
  case Nil
  then show ?case by simp
next
  case (Cons y ys)
  show ?case
  proof (cases "Itoa k = itemID")
    case True
    with Cons.prems show ?thesis by (intro exI[of _ 0]) simp
  next
    case False
    with Cons.prems have "range_find (Suc k) ys itemID = Some x" by simp
    from Cons.IH[OF this] obtain i where "i < length ys" "itemID = Itoa (Suc k + i)" "x = ys ! i"
      by blast
    then show ?thesis by (intro exI[of _ "Suc i"]) simp
  qed
qed

section \<open>Frame properties of the handlers\<close>

lemma image_path:
  "path_Join [ImgDirRelative, Sprintf_x h @ ''.jpg''] = ''../images/'' @ Sprintf_x h @ ''.jpg''"
proof (rule path_Join_plain(2))
  show "CHR ''/'' \<notin> set (Sprintf_x h @ ''.jpg'')"
    using Sprintf_x_no_slash[of h] by simp
  have "4 \<le> length (Sprintf_x h @ ''.jpg'')" by simp
  then show "Sprintf_x h @ ''.jpg'' \<noteq> []" "Sprintf_x h @ ''.jpg'' \<noteq> ''.''"
    "Sprintf_x h @ ''.jpg'' \<noteq> ''..''"
    by auto
qed

lemma image_path_not_ItemFile:
  "path_Join [ImgDirRelative, Sprintf_x h @ ''.jpg''] \<noteq> ItemFile"
  by (simp add: image_path ItemFile_def)

lemma fs_WriteFile:
  "ioutil_WriteFile w p c = Some w' \<Longrightarrow> q \<noteq> p \<Longrightarrow> fs w' q = fs w q"
  by (auto simp: ioutil_WriteFile_def split: option.splits if_splits)

lemma saveImageToLocal_fs:
  assumes "q \<noteq> path_Join [ImgDirRelative, Sprintf_x (H (Filename img)) @ ''.jpg'']"
  shows "fs (saveImageToLocal H img w) q = fs w q"
  using assms
  by (auto simp: saveImageToLocal_def Println_def os_Create_def io_Copy_def Let_def
      dest: fs_WriteFile split: option.splits)

lemma saveImageToLocal_ItemFile: "fs (saveImageToLocal H img w) ItemFile = fs w ItemFile"
  by (rule saveImageToLocal_fs) (simp add: image_path_not_ItemFile[symmetric])

lemma saveImageToLocal_db: "db (saveImageToLocal H img w) = db w"
  by (auto simp: saveImageToLocal_def Println_def os_Create_def io_Copy_def Let_def
      ioutil_WriteFile_def split: option.splits if_splits)

lemma readItems_cong: "fs w' ItemFile = fs w ItemFile \<Longrightarrow> readItems w' = readItems w"
  by (simp add: readItems_def os_Open_def)

lemma getItems_cong:
  assumes "fs w' ItemFile = fs w ItemFile"
  shows "getItems w' = getItems w"
  unfolding getItems_def os_Open_def readItems_cong[OF assms] assms ..

lemma addItemToDatabase_fs: "fs (snd (addItemToDatabase H name category img w)) = fs w"
  by (simp add: addItemToDatabase_def Let_def)

lemma addItem_part001_ItemFile: "fs (snd (addItem_part001 H c w)) ItemFile = fs w ItemFile"
proof (cases "form_image c")
  case None
  then show ?thesis by (simp add: addItem_part001_def)
next
  case (Some img)
  obtain r w1 where r: "addItemToDatabase H (form_name c) (form_category c) img w = (r, w1)"
    by (cases "addItemToDatabase H (form_name c) (form_category c) img w")
  then have "fs w1 = fs w"
    using addItemToDatabase_fs[of H "form_name c" "form_category c" img w] by simp
  with Some r show ?thesis
    by (auto simp: addItem_part001_def Let_def saveImageToLocal_ItemFile
        split: go.splits option.splits)
qed

lemma adds_part001_ItemFile: "fs (adds_part001 H cs w) ItemFile = fs w ItemFile"
  unfolding adds_part001_def
  by (induction cs arbitrary: w) (simp_all add: addItem_part001_ItemFile)

lemma Sprintf_x_valid: "toValidUTF8 (Sprintf_x h @ ''.jpg'') = Sprintf_x h @ ''.jpg''"
  by (rule toValidUTF8_ascii) (auto dest: Sprintf_x_ascii)

lemma updateJson_main_ok:
  assumes "suffix ''.jpg'' (Filename img)"
    and "fs w ItemFile = Some f" "can_open f" "can_read f" "can_write f"
  shows "updateJson_main H name category img w =
    (None, w\<lparr>fs := (fs w)(ItemFile \<mapsto> f\<lparr>contents :=
       Json (map valid_strings (json_Unmarshal (contents f) []) @
         [\<lparr>Name = toValidUTF8 name, Category = toValidUTF8 category,
           ImageFileName = Sprintf_x (H (Filename img)) @ ''.jpg''\<rparr>])\<rparr>)\<rparr>)"
proof -
  have ext: "path_Ext (Filename img) = ''.jpg''"
    using assms(1) by (simp add: path_Ext_jpg_iff)
  show ?thesis
    using assms(2-5)
    by (simp add: updateJson_main_def ext os_Open_def readItems_def ioutil_ReadAll_def
        json_Marshal_def ioutil_WriteFile_def valid_strings_def Sprintf_x_valid)
qed

lemma updateJson_main_not_jpg:
  "\<not> suffix ''.jpg'' (Filename img) \<Longrightarrow> updateJson_main H name category img w = (Some NotJpg, w)"
  by (simp add: updateJson_main_def path_Ext_jpg_iff)

lemma saveImageToLocal_ok:
  assumes "opens img" "fail_at img = None"
    and "os_Create w (''../images/'' @ Sprintf_x (H (Filename img)) @ ''.jpg'') \<noteq> None"
  shows "\<exists>g. fs (saveImageToLocal H img w) (''../images/'' @ Sprintf_x (H (Filename img)) @ ''.jpg'') = Some g
            \<and> can_write g \<and> contents g = Bytes (data img)"
  using assms
  by (auto simp: saveImageToLocal_def image_path os_Create_def ioutil_WriteFile_def io_Copy_def
      split: option.splits if_splits)

lemma addItem_main_ok:
  assumes "suffix ''.jpg'' (Filename img)" "form_image c = Some img"
    and "fs w ItemFile = Some f" "can_open f" "can_read f" "can_write f"
  shows "fs (snd (addItem_main H c w)) ItemFile = Some (f\<lparr>contents :=
       Json (map valid_strings (json_Unmarshal (contents f) []) @
         [\<lparr>Name = toValidUTF8 (form_name c), Category = toValidUTF8 (form_category c),
           ImageFileName = Sprintf_x (H (Filename img)) @ ''.jpg''\<rparr>])\<rparr>)"
  using assms(2)
  by (simp add: addItem_main_def Let_def saveImageToLocal_ItemFile
      updateJson_main_ok[OF assms(1,3-6)])

lemma getItems_ok:
  "fs w ItemFile = Some f \<Longrightarrow> can_open f \<Longrightarrow> can_read f \<Longrightarrow>
     getItems w = JSON 200 (ItemsBody (json_Unmarshal (contents f) []))"
  by (simp add: getItems_def readItems_def os_Open_def ioutil_ReadAll_def)

lemma add_then_list_main:
  assumes "suffix ''.jpg'' (Filename img)" "form_image c = Some img"
    and "fs w ItemFile = Some f" "can_open f" "can_read f" "can_write f"
  shows "getItems (snd (addItem_main H c w)) =
     JSON 200 (ItemsBody (map valid_strings (json_Unmarshal (contents f) []) @
         [\<lparr>Name = toValidUTF8 (form_name c), Category = toValidUTF8 (form_category c),
           ImageFileName = Sprintf_x (H (Filename img)) @ ''.jpg''\<rparr>]))"
  using getItems_ok[OF addItem_main_ok[OF assms, of H]] assms(4,5)
  by (simp add: json_Unmarshal_def)

section \<open>The claims\<close>

text \<open>
  C10. In \<^verbatim>\<open>part_001\<close> the answer of list (\<^verbatim>\<open>getItems\<close>) is the same before and after any
  sequence of add requests: add writes the sqlite table and the image directory,
  list reads only \<^verbatim>\<open>items.json\<close>.
\<close>

theorem list_ignores_add_part001: "getItems (adds_part001 H cs w) = getItems w"
  by (rule getItems_cong) (rule adds_part001_ItemFile)

text \<open>
  C1. Add followed by list shows the added item under the name
  hex(SHA-256(filename)) + \<open>.jpg\<close>. In \<^verbatim>\<open>main.go\<close> this holds whenever the catalog file can
  be opened, read and written (\<open>add_then_list_main\<close>). In \<^verbatim>\<open>part_001\<close> it fails: on a
  catalog file without items, adding \<^verbatim>\<open>shoes.jpg\<close> is answered with the success message
  and inserts the row into the table, and list still answers with no item.
\<close>

theorem add_then_list_part001_misses:
  "fst (addItem_part001 H shoes (empty_catalog :: ItemID world)) =
       JSON 200 (Message ''item received: shoes'')
   \<and> items_table (db (snd (addItem_part001 H shoes (empty_catalog :: ItemID world)))) =
       Some [\<lparr>Name = ''shoes'', Category = ''fashion'',
              ImageFileName = Sprintf_x (H ''shoes.jpg'') @ ''.jpg'', ID = 1\<rparr>]
   \<and> getItems (snd (addItem_part001 H shoes (empty_catalog :: ItemID world))) =
       JSON 200 (ItemsBody [])"
proof -
  have ext: "path_Ext ''shoes.jpg'' = ''.jpg''"
    by (simp add: path_Ext_def)
  have add: "addItemToDatabase H ''shoes'' ''fashion'' shoes_jpg (empty_catalog :: 'a world) =
      (Return None, empty_catalog\<lparr>db := empty_db\<lparr>items_table :=
         Some [\<lparr>Name = ''shoes'', Category = ''fashion'',
              ImageFileName = Sprintf_x (H ''shoes.jpg'') @ ''.jpg'', ID = 1\<rparr>],
         sequence := 1\<rparr>\<rparr>)"
    by (simp add: addItemToDatabase_def shoes_jpg_def ext empty_catalog_def fresh_world_def
        empty_db_def exec_create_def exec_insert_def MAX_ROWID_def)
  have "getItems (empty_catalog :: ItemID world) = JSON 200 (ItemsBody [])"
    by (simp add: getItems_def readItems_def os_Open_def ioutil_ReadAll_def empty_catalog_def
        fresh_world_def regular_def json_Unmarshal_def)
  then have "getItems (snd (addItem_part001 H shoes (empty_catalog :: ItemID world))) =
       JSON 200 (ItemsBody [])"
    using getItems_cong[OF addItem_part001_ItemFile, of H shoes "empty_catalog :: ItemID world"]
    by simp
  moreover have "fst (addItem_part001 H shoes (empty_catalog :: ItemID world)) =
      JSON 200 (Message ''item received: shoes'')"
    by (simp add: addItem_part001_def shoes_def add Let_def)
  moreover have "items_table (db (snd (addItem_part001 H shoes (empty_catalog :: ItemID world)))) =
       Some [\<lparr>Name = ''shoes'', Category = ''fashion'',
              ImageFileName = Sprintf_x (H ''shoes.jpg'') @ ''.jpg'', ID = 1\<rparr>]"
    by (simp add: addItem_part001_def shoes_def add Let_def saveImageToLocal_db)
  ultimately show ?thesis
    by simp
qed

lemma updateJson_part000_ok:
  assumes "fs w ''items.json'' = Some f" "can_open f" "can_read f" "can_write f"
  shows "updateJson_part000 H name category img w =
    w\<lparr>fs := (fs w)(''items.json'' \<mapsto> f\<lparr>contents :=
       Json (map valid_strings (json_Unmarshal (contents f) []) @
         [\<lparr>Name = toValidUTF8 name, Category = toValidUTF8 category,
           ImageFileName = Sprintf_x (H (Filename img)) @ ''.jpg''\<rparr>])\<rparr>)\<rparr>"
  using assms
  by (simp add: updateJson_part000_def os_Open_def ioutil_ReadAll_def
      json_Marshal_def ioutil_WriteFile_def valid_strings_def Sprintf_x_valid)

lemma add_then_list_part000:
  assumes "form_image c = Some img"
    and "fs w ''items.json'' = Some f" "can_open f" "can_read f" "can_write f"
  shows "fst (getItems_part000 (snd (addItem_part000 H c w))) =
     JSON 200 (ItemsBody (map valid_strings (json_Unmarshal (contents f) []) @
         [\<lparr>Name = toValidUTF8 (form_name c), Category = toValidUTF8 (form_category c),
           ImageFileName = Sprintf_x (H (Filename img)) @ ''.jpg''\<rparr>]))"
proof -
  have "fs (snd (addItem_part000 H c w)) ''items.json'' = Some (f\<lparr>contents :=
       Json (map valid_strings (json_Unmarshal (contents f) []) @
         [\<lparr>Name = toValidUTF8 (form_name c), Category = toValidUTF8 (form_category c),
           ImageFileName = Sprintf_x (H (Filename img)) @ ''.jpg''\<rparr>])\<rparr>)"
    using assms(1)
    by (simp add: addItem_part000_def Let_def updateJson_part000_ok[OF assms(2-5)]
        saveImageToLocal_ItemFile[unfolded ItemFile_def])
  then show ?thesis
    using assms(3,4)
    by (simp add: getItems_part000_def os_Open_def ioutil_ReadAll_def json_Unmarshal_def)
qed

lemma toy_hash_cat: "Sprintf_x (toy_hash ''cat.png'') = ''6361''"
  by (simp add: toy_hash_def Sprintf_x_def hexdigit_def)

text \<open>
  C2. An add whose image filename does not end in \<open>.jpg\<close> is refused with status 400
  and leaves the catalog as it was. Not so in \<^verbatim>\<open>part_000\<close>, which has no extension check:
  adding \<^verbatim>\<open>cat.png\<close> to a catalog without items is answered 200 and list then shows the
  item, under a \<open>.jpg\<close> name. \<^verbatim>\<open>main.go\<close> answers 200 as well.
\<close>

theorem add_png_part000_grows:
  "\<not> strings_HasSuffix ''cat.png'' ''.jpg''
   \<and> fst (getItems_part000 (empty_catalog :: Item world)) = JSON 200 (ItemsBody [])
   \<and> fst (addItem_part000 toy_hash cat_png empty_catalog) = JSON 200 (Message ''item received: cat'')
   \<and> fst (getItems_part000 (snd (addItem_part000 toy_hash cat_png empty_catalog))) =
       JSON 200 (ItemsBody [\<lparr>Name = ''cat'', Category = ''pets'', ImageFileName = ''6361.jpg''\<rparr>])
   \<and> fst (addItem_main toy_hash cat_png empty_catalog) = JSON 200 (Message ''item received: cat'')"
proof -
  have 1: "\<not> strings_HasSuffix ''cat.png'' ''.jpg''"
    by (simp add: strings_HasSuffix_def)
  have 2: "fst (getItems_part000 (empty_catalog :: Item world)) = JSON 200 (ItemsBody [])"
    by (simp add: getItems_part000_def os_Open_def empty_catalog_def fresh_world_def ItemFile_def
        regular_def ioutil_ReadAll_def json_Unmarshal_def)
  have 3: "fst (addItem_part000 toy_hash cat_png empty_catalog) =
      JSON 200 (Message ''item received: cat'')"
    by (simp add: addItem_part000_def cat_png_def Let_def)
  have f: "fs (empty_catalog :: Item world) ''items.json'' = Some (regular (Json []))"
    by (simp add: empty_catalog_def ItemFile_def)
  have c: "form_image cat_png =
      Some \<lparr>Filename = ''cat.png'', opens = True, data = ''PNG'', fail_at = None\<rparr>"
    by (simp add: cat_png_def)
  have 4: "fst (getItems_part000 (snd (addItem_part000 toy_hash cat_png empty_catalog))) =
       JSON 200 (ItemsBody [\<lparr>Name = ''cat'', Category = ''pets'', ImageFileName = ''6361.jpg''\<rparr>])"
    using add_then_list_part000[OF c f, of toy_hash]
    by (simp add: cat_png_def regular_def json_Unmarshal_def toy_hash_cat decode_size_def)
  have 5: "fst (addItem_main toy_hash cat_png empty_catalog) =
      JSON 200 (Message ''item received: cat'')"
    by (simp add: addItem_main_def cat_png_def Let_def)
  from 1 2 3 4 5 show ?thesis by blast
qed

text \<open>
  C2, as amended. In \<^verbatim>\<open>main.go\<close>, for an image filename that does not end in \<open>.jpg\<close>,
  \<^verbatim>\<open>updateJson\<close> returns its extension error before it touches the catalog file: after
  the request \<^verbatim>\<open>items.json\<close> is what it was and list answers as before.
\<close>

theorem add_non_jpg_main:
  assumes "\<not> suffix ''.jpg'' (Filename img)" "form_image c = Some img"
  shows "fst (updateJson_main H (form_name c) (form_category c) img w) = Some NotJpg
       \<and> fs (snd (addItem_main H c w)) ItemFile = fs w ItemFile
       \<and> getItems (snd (addItem_main H c w)) = getItems w"
proof -
  have "fs (snd (addItem_main H c w)) ItemFile = fs w ItemFile"
    using assms by (simp add: addItem_main_def Let_def updateJson_main_not_jpg
        saveImageToLocal_ItemFile)
  with getItems_cong[OF this] show ?thesis
    using assms(1) by (simp add: updateJson_main_not_jpg)
qed

theorem add_non_jpg_main_witness:
  "\<not> suffix ''.jpg'' ''cat.png''
   \<and> getItems (snd (addItem_main toy_hash cat_png empty_catalog)) = JSON 200 (ItemsBody [])"
proof -
  have n: "\<not> suffix ''.jpg'' (Filename \<lparr>Filename = ''cat.png'', opens = True, data = ''PNG'', fail_at = None\<rparr>)"
    by (simp add: suffix_def)
  have c: "form_image cat_png = Some \<lparr>Filename = ''cat.png'', opens = True, data = ''PNG'', fail_at = None\<rparr>"
    by (simp add: cat_png_def)
  have e: "getItems (empty_catalog :: Item world) = JSON 200 (ItemsBody [])"
    by (simp add: getItems_def readItems_def os_Open_def empty_catalog_def fresh_world_def
        regular_def ioutil_ReadAll_def json_Unmarshal_def)
  from add_non_jpg_main[OF n c, of toy_hash empty_catalog] n e show ?thesis
    by simp
qed

text \<open>
  C3. An add that meets a storage failure is answered 500. \<^verbatim>\<open>main.go\<close> does not: with no
  \<^verbatim>\<open>items.json\<close> at all \<^verbatim>\<open>updateJson\<close> returns the error of \<^verbatim>\<open>os.Open\<close>, \<^verbatim>\<open>addItem\<close> drops
  it and answers 200 with the success message. \<^verbatim>\<open>part_001\<close> checks the error of
  \<^verbatim>\<open>addItemToDatabase\<close>, but that function drops the error of the \<^verbatim>\<open>INSERT\<close>: on a
  database that cannot be written the answer is the success message and the table
  holds no row.
\<close>

theorem add_reports_success_on_storage_failure:
  "fst (updateJson_main H ''shoes'' ''fashion'' shoes_jpg fresh_world) = Some OpenError
   \<and> fst (addItem_main H shoes fresh_world) = JSON 200 (Message ''item received: shoes'')
   \<and> fst (addItem_part001 H shoes (readonly_world :: ItemID world)) =
       JSON 200 (Message ''item received: shoes'')
   \<and> items_table (db (snd (addItem_part001 H shoes (readonly_world :: ItemID world)))) = Some []"
proof -
  have ext: "path_Ext ''shoes.jpg'' = ''.jpg''"
    by (simp add: path_Ext_def)
  have 1: "fst (updateJson_main H ''shoes'' ''fashion'' shoes_jpg fresh_world) = Some OpenError"
    by (simp add: updateJson_main_def shoes_jpg_def ext os_Open_def fresh_world_def)
  have 2: "fst (addItem_main H shoes fresh_world) = JSON 200 (Message ''item received: shoes'')"
    by (simp add: addItem_main_def shoes_def Let_def)
  have add: "addItemToDatabase H ''shoes'' ''fashion'' shoes_jpg (readonly_world :: ItemID world) =
      (Return None, readonly_world)"
    by (simp add: addItemToDatabase_def shoes_jpg_def ext readonly_world_def empty_catalog_def
        fresh_world_def empty_db_def exec_create_def exec_insert_def MAX_ROWID_def)
  have 3: "fst (addItem_part001 H shoes (readonly_world :: ItemID world)) =
       JSON 200 (Message ''item received: shoes'')"
    by (simp add: addItem_part001_def shoes_def add Let_def)
  have 4: "items_table (db (snd (addItem_part001 H shoes (readonly_world :: ItemID world)))) = Some []"
    by (simp add: addItem_part001_def shoes_def add Let_def saveImageToLocal_db)
      (simp add: readonly_world_def empty_db_def)
  from 1 2 3 4 show ?thesis by blast
qed

lemma os_Create_stdout: "os_Create w p = Some w1 \<Longrightarrow> stdout w1 = stdout w"
  by (auto simp: os_Create_def ioutil_WriteFile_def split: option.splits if_splits)

lemma io_Copy_stdout: "stdout (fst (io_Copy w p src)) = stdout w"
  by (simp add: io_Copy_def Let_def)

lemma saveImageToLocal_fails:
  assumes "\<not> opens img
        \<or> os_Create w (path_Join [ImgDirRelative, Sprintf_x (H (Filename img)) @ ''.jpg'']) = None
        \<or> fail_at img \<noteq> None"
  shows "\<exists>line \<in> {''Cannot open image: '', ''Cannot create image: '', ''Cannot copy image: ''}.
           stdout (saveImageToLocal H img w) = stdout w @ [line]"
proof (cases "opens img")
  case False
  then show ?thesis
    by (simp add: saveImageToLocal_def Println_def)
next
  case True
  show ?thesis
  proof (cases "os_Create w (path_Join [ImgDirRelative, Sprintf_x (H (Filename img)) @ ''.jpg''])")
    case None
    with True show ?thesis
      by (simp add: saveImageToLocal_def Println_def)
  next
    case (Some w1)
    obtain w2 copied where c:
      "io_Copy w1 (path_Join [ImgDirRelative, Sprintf_x (H (Filename img)) @ ''.jpg'']) img = (w2, copied)"
      by (cases "io_Copy w1 (path_Join [ImgDirRelative, Sprintf_x (H (Filename img)) @ ''.jpg'']) img")
    from True Some assms have "fail_at img \<noteq> None" by simp
    with c have "\<not> copied"
      by (auto simp: io_Copy_def Let_def)
    moreover have "stdout w2 = stdout w"
      using io_Copy_stdout[of w1 "path_Join [ImgDirRelative, Sprintf_x (H (Filename img)) @ ''.jpg'']" img]
        c os_Create_stdout[OF Some] by simp
    ultimately show ?thesis
      using True Some c by (simp add: saveImageToLocal_def Println_def)
  qed
qed

text \<open>
  C4. Once the form is parsed and the catalog entry persisted (\<^verbatim>\<open>updateJson\<close> of
  \<^verbatim>\<open>main.go\<close>, \<^verbatim>\<open>addItemToDatabase\<close> of \<^verbatim>\<open>part_001\<close> returned no error), a failure of
  \<^verbatim>\<open>saveImageToLocal\<close> to open the upload, to create the file or to copy the bytes prints
  one line and changes nothing in the answer: it is the success message
  \<open>item received: <name>\<close> with status 200.
\<close>

theorem image_save_failure_swallowed:
  assumes "form_image c = Some img"
  shows "(\<forall>w1. updateJson_main H (form_name c) (form_category c) img w = (None, w1)
            \<and> (\<not> opens img
               \<or> os_Create w1 (path_Join [ImgDirRelative, Sprintf_x (H (Filename img)) @ ''.jpg'']) = None
               \<or> fail_at img \<noteq> None)
          \<longrightarrow> fst (addItem_main H c w) = JSON 200 (Message (''item received: '' @ form_name c))
            \<and> (\<exists>line \<in> {''Cannot open image: '', ''Cannot create image: '', ''Cannot copy image: ''}.
                  stdout (snd (addItem_main H c w)) = stdout w1 @ [line]))
       \<and> (\<forall>v1. addItemToDatabase H (form_name c) (form_category c) img v = (Return None, v1)
            \<and> (\<not> opens img
               \<or> os_Create v1 (path_Join [ImgDirRelative, Sprintf_x (H (Filename img)) @ ''.jpg'']) = None
               \<or> fail_at img \<noteq> None)
          \<longrightarrow> fst (addItem_part001 H c v) = JSON 200 (Message (''item received: '' @ form_name c))
            \<and> (\<exists>line \<in> {''Cannot open image: '', ''Cannot create image: '', ''Cannot copy image: ''}.
                  stdout (snd (addItem_part001 H c v)) = stdout v1 @ [line]))"
proof (intro conjI allI impI)
  fix w1
  assume a: "updateJson_main H (form_name c) (form_category c) img w = (None, w1)
            \<and> (\<not> opens img
               \<or> os_Create w1 (path_Join [ImgDirRelative, Sprintf_x (H (Filename img)) @ ''.jpg'']) = None
               \<or> fail_at img \<noteq> None)"
  show "fst (addItem_main H c w) = JSON 200 (Message (''item received: '' @ form_name c))"
    using assms by (simp add: addItem_main_def Let_def)
  have "snd (addItem_main H c w) = saveImageToLocal H img w1"
    using assms a by (simp add: addItem_main_def Let_def)
  with saveImageToLocal_fails[of img w1 H] a
  show "\<exists>line \<in> {''Cannot open image: '', ''Cannot create image: '', ''Cannot copy image: ''}.
                  stdout (snd (addItem_main H c w)) = stdout w1 @ [line]"
    by simp
next
  fix v1
  assume a: "addItemToDatabase H (form_name c) (form_category c) img v = (Return None, v1)
            \<and> (\<not> opens img
               \<or> os_Create v1 (path_Join [ImgDirRelative, Sprintf_x (H (Filename img)) @ ''.jpg'']) = None
               \<or> fail_at img \<noteq> None)"
  then show "fst (addItem_part001 H c v) = JSON 200 (Message (''item received: '' @ form_name c))"
    using assms by (simp add: addItem_part001_def Let_def)
  have "snd (addItem_part001 H c v) = saveImageToLocal H img v1"
    using assms a by (simp add: addItem_part001_def Let_def)
  with saveImageToLocal_fails[of img v1 H] a
  show "\<exists>line \<in> {''Cannot open image: '', ''Cannot create image: '', ''Cannot copy image: ''}.
                  stdout (snd (addItem_part001 H c v)) = stdout v1 @ [line]"
    by simp
qed


lemma empty_catalog_ItemFile:
  "fs (empty_catalog :: 'i world) ItemFile = Some (regular (Json []))"
  "can_open (regular c)" "can_read (regular c)" "can_write (regular c)"
  "contents (regular c) = c"
  by (simp_all add: empty_catalog_def regular_def)

theorem image_save_failure_swallowed_witness:
  "form_image broken_shoes = Some broken_jpg
   \<and> \<not> opens broken_jpg
   \<and> fst (updateJson_main toy_hash ''shoes'' ''fashion'' broken_jpg empty_catalog) = None
   \<and> fst (addItem_main toy_hash broken_shoes empty_catalog) =
       JSON 200 (Message ''item received: shoes'')
   \<and> fst (addItemToDatabase toy_hash ''shoes'' ''fashion'' broken_jpg
          (empty_catalog :: ItemID world)) = Return None
   \<and> fst (addItem_part001 toy_hash broken_shoes (empty_catalog :: ItemID world)) =
       JSON 200 (Message ''item received: shoes'')"
proof -
  have c: "form_image broken_shoes = Some broken_jpg"
    and n: "form_name broken_shoes = ''shoes''" "form_category broken_shoes = ''fashion''"
    by (simp_all add: broken_shoes_def shoes_def)
  have o: "\<not> opens broken_jpg" and fn: "Filename broken_jpg = ''shoes.jpg''"
    by (simp_all add: broken_jpg_def shoes_jpg_def)
  have jpg: "suffix ''.jpg'' (Filename broken_jpg)"
    by (simp add: fn suffix_def)
  obtain w1 where u: "updateJson_main toy_hash ''shoes'' ''fashion'' broken_jpg empty_catalog = (None, w1)"
    using updateJson_main_ok[OF jpg empty_catalog_ItemFile(1-4), of toy_hash "''shoes''" "''fashion''"]
    by simp
  have ext: "path_Ext ''shoes.jpg'' = ''.jpg''"
    by (simp add: path_Ext_def)
  obtain v1 where d: "addItemToDatabase toy_hash ''shoes'' ''fashion'' broken_jpg
      (empty_catalog :: ItemID world) = (Return None, v1)"
    by (simp add: addItemToDatabase_def fn ext empty_catalog_def fresh_world_def
        empty_db_def exec_create_def exec_insert_def MAX_ROWID_def)
  from image_save_failure_swallowed[OF c, of toy_hash empty_catalog "empty_catalog :: ItemID world"]
    c o u d show ?thesis
    by (simp add: n)
qed

lemma os_Create_cong:
  "fs w1 p = fs w p \<Longrightarrow> can_create w1 p = can_create w p \<Longrightarrow>
     (os_Create w1 p = None) = (os_Create w p = None)"
  by (auto simp: os_Create_def ioutil_WriteFile_def split: option.splits)

lemma os_Create_exists: "fs w p = Some g \<Longrightarrow> can_write g \<Longrightarrow> os_Create w p \<noteq> None"
  by (simp add: os_Create_def ioutil_WriteFile_def)

lemma addItem_main_image:
  assumes "suffix ''.jpg'' (Filename img)" "form_image c = Some img"
    and "fs w ItemFile = Some f" "can_open f" "can_read f" "can_write f"
    and "opens img" "fail_at img = None"
    and "os_Create w (''../images/'' @ Sprintf_x (H (Filename img)) @ ''.jpg'') \<noteq> None"
  shows "\<exists>g. fs (snd (addItem_main H c w)) (''../images/'' @ Sprintf_x (H (Filename img)) @ ''.jpg'') = Some g
            \<and> can_write g \<and> contents g = Bytes (data img)"
proof -
  let ?p = "''../images/'' @ Sprintf_x (H (Filename img)) @ ''.jpg''"
  obtain w1 where u: "updateJson_main H (form_name c) (form_category c) img w = (None, w1)"
    and w1: "fs w1 ?p = fs w ?p" "can_create w1 = can_create w"
    using updateJson_main_ok[OF assms(1,3-6), of H "form_name c" "form_category c"]
    by (simp add: ItemFile_def)
  have "os_Create w1 ?p \<noteq> None"
    using assms(9) os_Create_cong[of w1 ?p w] w1 by simp
  from saveImageToLocal_ok[where H = H, OF assms(7,8) this] u assms(2) show ?thesis
    by (simp add: addItem_main_def Let_def)
qed

text \<open>
  C9. For an upload whose original filename ends in \<open>.jpg\<close>, served by \<^verbatim>\<open>addItem\<close> of
  \<^verbatim>\<open>main.go\<close> with the catalog file and the image directory usable: the \<^verbatim>\<open>imageFileName\<close>
  of the item appended to the catalog and the name of the file written under
  \<^verbatim>\<open>ImgDirRelative\<close> are the same \<open>n\<close>, the hex digits of the hash of the filename followed
  by \<open>.jpg\<close>. \<open>n\<close> is computed from the filename alone: a second upload under the same
  filename with other bytes is recorded under \<open>n\<close> again and replaces the bytes of the
  file \<open>n\<close>.
\<close>

theorem image_name_agrees:
  assumes "suffix ''.jpg'' (Filename img)" "form_image c = Some img"
    and "fs w ItemFile = Some f" "can_open f" "can_read f" "can_write f"
    and "opens img" "fail_at img = None"
    and "os_Create w (ImgDirRelative @ ''/'' @ Sprintf_x (H (Filename img)) @ ''.jpg'') \<noteq> None"
    and "form_image c2 = Some img2" "Filename img2 = Filename img"
    and "opens img2" "fail_at img2 = None"
  shows "(let n = Sprintf_x (H (Filename img)) @ ''.jpg'';
             w' = snd (addItem_main H c w);
             w'' = snd (addItem_main H c2 w')
         in (\<exists>its. getItems w' = JSON 200 (ItemsBody (its @
                 [\<lparr>Name = toValidUTF8 (form_name c), Category = toValidUTF8 (form_category c),
                   ImageFileName = n\<rparr>])))
          \<and> map_option contents (fs w' (ImgDirRelative @ ''/'' @ n)) = Some (Bytes (data img))
          \<and> (\<exists>its. getItems w'' = JSON 200 (ItemsBody (its @
                 [\<lparr>Name = toValidUTF8 (form_name c2), Category = toValidUTF8 (form_category c2),
                   ImageFileName = n\<rparr>])))
          \<and> map_option contents (fs w'' (ImgDirRelative @ ''/'' @ n)) = Some (Bytes (data img2)))"
proof -
  let ?n = "Sprintf_x (H (Filename img)) @ ''.jpg''"
  let ?p = "''../images/'' @ ?n"
  let ?w' = "snd (addItem_main H c w)"
  let ?w'' = "snd (addItem_main H c2 ?w')"
  have dir: "os_Create w ?p \<noteq> None"
    using assms(9) by (simp add: ImgDirRelative_def ImgDir_def)
  have jpg2: "suffix ''.jpg'' (Filename img2)"
    using assms(1,11) by simp
  note cat' = addItem_main_ok[OF assms(1-6), of H]
  have 1: "\<exists>its. getItems ?w' = JSON 200 (ItemsBody (its @
                 [\<lparr>Name = toValidUTF8 (form_name c), Category = toValidUTF8 (form_category c),
                   ImageFileName = ?n\<rparr>]))"
    using add_then_list_main[OF assms(1-6), of H] by blast
  obtain g where g: "fs ?w' ?p = Some g" "can_write g" "contents g = Bytes (data img)"
    using addItem_main_image[where H = H, OF assms(1-8) dir] by blast
  have f': "can_open (f\<lparr>contents := x\<rparr>)" "can_read (f\<lparr>contents := x\<rparr>)"
    "can_write (f\<lparr>contents := x\<rparr>)" for x
    using assms(4-6) by simp_all
  have dir2: "os_Create ?w' (''../images/'' @ Sprintf_x (H (Filename img2)) @ ''.jpg'') \<noteq> None"
    using os_Create_exists[OF g(1,2)] assms(11) by simp
  have 3: "\<exists>its. getItems ?w'' = JSON 200 (ItemsBody (its @
                 [\<lparr>Name = toValidUTF8 (form_name c2), Category = toValidUTF8 (form_category c2),
                   ImageFileName = ?n\<rparr>]))"
    using add_then_list_main[OF jpg2 assms(10) cat' f', of H] assms(11) by auto
  obtain g2 where g2: "fs ?w'' ?p = Some g2" "contents g2 = Bytes (data img2)"
    using addItem_main_image[where H = H, OF jpg2 assms(10) cat' f' assms(12,13) dir2] assms(11) by auto
  from 1 g 3 g2 show ?thesis
    by (simp add: Let_def ImgDirRelative_def ImgDir_def)
qed


lemma toy_hash_shoes: "Sprintf_x (toy_hash ''shoes.jpg'') = ''7368''"
  by (simp add: toy_hash_def Sprintf_x_def hexdigit_def)

theorem image_name_agrees_witness:
  "suffix ''.jpg'' (Filename shoes_jpg)
   \<and> Filename (shoes_jpg\<lparr>data := ''OTHER''\<rparr>) = Filename shoes_jpg
   \<and> (\<exists>its. getItems (snd (addItem_main toy_hash shoes empty_catalog)) =
         JSON 200 (ItemsBody (its @
           [\<lparr>Name = ''shoes'', Category = ''fashion'', ImageFileName = ''7368.jpg''\<rparr>])))
   \<and> map_option contents (fs (snd (addItem_main toy_hash shoes empty_catalog))
         ''../images/7368.jpg'') = Some (Bytes ''JPEG'')
   \<and> map_option contents
         (fs (snd (addItem_main toy_hash shoes_again (snd (addItem_main toy_hash shoes empty_catalog))))
           ''../images/7368.jpg'') = Some (Bytes ''OTHER'')"
proof -
  have fn: "Filename shoes_jpg = ''shoes.jpg''" "opens shoes_jpg" "fail_at shoes_jpg = None"
    "data shoes_jpg = ''JPEG''"
    by (simp_all add: shoes_jpg_def)
  have jpg: "suffix ''.jpg'' (Filename shoes_jpg)"
    by (simp add: fn suffix_def)
  have c: "form_image shoes = Some shoes_jpg" "form_name shoes = ''shoes''"
    "form_category shoes = ''fashion''"
    by (simp_all add: shoes_def)
  have c2: "form_image shoes_again = Some (shoes_jpg\<lparr>data := ''OTHER''\<rparr>)"
    by (simp add: shoes_again_def)
  have dir: "os_Create (empty_catalog :: Item world)
      (ImgDirRelative @ ''/'' @ Sprintf_x (toy_hash (Filename shoes_jpg)) @ ''.jpg'') \<noteq> None"
    by (simp add: os_Create_def ioutil_WriteFile_def empty_catalog_def fresh_world_def
        ImgDirRelative_def ImgDir_def ItemFile_def)
  from image_name_agrees[where H = toy_hash, OF jpg c(1) empty_catalog_ItemFile(1-4) fn(2,3) dir c2]
  show ?thesis
    using jpg by (simp add: Let_def fn c toy_hash_shoes ImgDirRelative_def ImgDir_def decode_size_def)
qed

text \<open>
  C8. List on an absent catalog file yields an empty list, except in the earliest
  generation. \<^verbatim>\<open>getItems\<close> of \<^verbatim>\<open>main.go\<close> (and of \<^verbatim>\<open>part_001\<close>) answers 400 instead.
\<close>

theorem list_absent_file_is_error:
  "fs (fresh_world :: Item world) ItemFile = None
   \<and> getItems (fresh_world :: Item world) = JSON 400 (ErrorBody OpenError)"
  by (simp add: getItems_def os_Open_def fresh_world_def)

text \<open>
  C8, as amended. A catalog file that is absent, or cannot be opened, is an error for
  list in every generation: \<^verbatim>\<open>main.go\<close> and \<^verbatim>\<open>part_001\<close> answer 400, \<^verbatim>\<open>part_000\<close> returns the
  error to the framework, which answers 500. A file that opens but cannot be read is
  answered 500 by all of them. A file that opens and can be read is answered 200 with
  the items decoded from it, none when it holds none or cannot be decoded.
\<close>

theorem list_on_file_states:
  "(os_Open w ItemFile = None \<longrightarrow> getItems w = JSON 400 (ErrorBody OpenError))
   \<and> (\<forall>f. os_Open w ItemFile = Some f \<and> \<not> can_read f \<longrightarrow>
          getItems w = JSON 500 (ErrorBody ReadError))
   \<and> (\<forall>f. os_Open w ItemFile = Some f \<and> can_read f \<longrightarrow>
          getItems w = JSON 200 (ItemsBody (json_Unmarshal (contents f) [])))
   \<and> (os_Open w ''items.json'' = None \<longrightarrow>
          fst (getItems_part000 w) = Failed OpenError \<and> status (fst (getItems_part000 w)) = 500)
   \<and> (\<forall>f. os_Open w ''items.json'' = Some f \<and> \<not> can_read f \<longrightarrow>
          fst (getItems_part000 w) = Failed ReadError \<and> status (fst (getItems_part000 w)) = 500)
   \<and> (\<forall>f. os_Open w ''items.json'' = Some f \<and> can_read f \<longrightarrow>
          fst (getItems_part000 w) = JSON 200 (ItemsBody (json_Unmarshal (contents f) [])))"
  by (auto simp: getItems_def getItems_part000_def readItems_def ioutil_ReadAll_def)

theorem list_on_file_states_witness:
  "os_Open (fresh_world :: Item world) ItemFile = None
   \<and> getItems (fresh_world :: Item world) = JSON 400 (ErrorBody OpenError)
   \<and> status (fst (getItems_part000 (fresh_world :: Item world))) = 500
   \<and> os_Open (unreadable :: Item world) ItemFile = Some ((regular (Json []))\<lparr>can_read := False\<rparr>)
   \<and> getItems (unreadable :: Item world) = JSON 500 (ErrorBody ReadError)
   \<and> os_Open two_items ItemFile = Some (regular (Json [boots, hat]))
   \<and> getItems two_items = JSON 200 (ItemsBody [boots, hat])"
proof -
  have a: "os_Open (fresh_world :: Item world) ItemFile = None"
    "os_Open (fresh_world :: Item world) ''items.json'' = None"
    by (simp_all add: os_Open_def fresh_world_def)
  have b: "os_Open (unreadable :: Item world) ItemFile = Some ((regular (Json []))\<lparr>can_read := False\<rparr>)"
    by (simp add: os_Open_def unreadable_def regular_def)
  have c: "os_Open two_items ItemFile = Some (regular (Json [boots, hat]))"
    by (simp add: os_Open_def two_items_def regular_def)
  from list_on_file_states[of "fresh_world :: Item world"] a
  have 1: "getItems (fresh_world :: Item world) = JSON 400 (ErrorBody OpenError)"
    "status (fst (getItems_part000 (fresh_world :: Item world))) = 500"
    by simp_all
  from list_on_file_states[of "unreadable :: Item world"] b
  have 2: "getItems (unreadable :: Item world) = JSON 500 (ErrorBody ReadError)"
    by (simp add: regular_def)
  from list_on_file_states[of two_items] c
  have 3: "getItems two_items = JSON 200 (ItemsBody [boots, hat])"
    by (simp add: regular_def json_Unmarshal_def)
  from a b c 1 2 3 show ?thesis by simp
qed



lemma range_find_None:
  "\<forall>i<length items. itemID \<noteq> Itoa (k + i) \<Longrightarrow> range_find k items itemID = None"
  using range_find_Some[of k items itemID] by (cases "range_find k items itemID") auto

lemma find_key:
  "distinct (map ID rows) \<Longrightarrow> r \<in> set rows \<Longrightarrow> k = Some (ID r) \<Longrightarrow>
     find (\<lambda>x. k = Some (ID x)) rows = Some r"
  by (induction rows) (auto simp: rev_image_eqI)

lemma find_no_key:
  "\<forall>r\<in>set rows. k \<noteq> Some (ID r) \<Longrightarrow> find (\<lambda>x. k = Some (ID x)) rows = None"
  by (induction rows) auto

text \<open>
  C5. Get-by-id answers with the matching item, 404 when there is none, and a storage
  error (500) on any other read failure. In \<^verbatim>\<open>main.go\<close> a catalog file that cannot be
  opened is answered 400: here with no \<^verbatim>\<open>items.json\<close> at all.
\<close>

theorem getByID_absent_file_is_400:
  "getItemsByID_main ''0'' (fresh_world :: Item world) = JSON 400 (ErrorBody OpenError)
   \<and> status (getItemsByID_main ''0'' (fresh_world :: Item world)) \<noteq> 404
   \<and> status (getItemsByID_main ''0'' (fresh_world :: Item world)) \<noteq> 500"
  by (simp add: getItemsByID_main_def os_Open_def fresh_world_def)

text \<open>
  C5, as amended. \<^verbatim>\<open>getItemsByID\<close> of \<^verbatim>\<open>main.go\<close> answers 400 when \<^verbatim>\<open>items.json\<close> cannot be
  opened and 500 when it opens but cannot be read; otherwise the request for the decimal
  numeral of a position \<open>i\<close> below the number of items is answered with the item at
  position \<open>i\<close> of the file, and a parameter that is the numeral of no such position with
  404. \<^verbatim>\<open>getItemByID\<close> of \<^verbatim>\<open>part_001\<close> answers 500 when the database cannot be opened or
  queried; otherwise, the keys of the table being distinct, it answers with the row
  whose key is the number sqlite reads in the parameter, and with 404 when no row has
  that key.
\<close>

theorem getByID_by_backend:
  "(os_Open w ItemFile = None \<longrightarrow> getItemsByID_main itemID w = JSON 400 (ErrorBody OpenError))
   \<and> (\<forall>f. os_Open w ItemFile = Some f \<and> \<not> can_read f \<longrightarrow>
          getItemsByID_main itemID w = JSON 500 (ErrorBody ReadError))
   \<and> (\<forall>f i. os_Open w ItemFile = Some f \<and> can_read f
            \<and> i < length (json_Unmarshal (contents f) []) \<longrightarrow>
          getItemsByID_main (Itoa i) w = JSON 200 (ItemBody (json_Unmarshal (contents f) [] ! i)))
   \<and> (\<forall>f. os_Open w ItemFile = Some f \<and> can_read f
            \<and> (\<forall>i<length (json_Unmarshal (contents f) []). itemID \<noteq> Itoa i) \<longrightarrow>
          getItemsByID_main itemID w = JSON 404 NullBody)
   \<and> (\<not> sql_open_ok (db v) \<longrightarrow> status (getItemByID_part001 to_key itemID v) = 500)
   \<and> (sql_open_ok (db v) \<and> (\<not> reachable (db v) \<or> items_table (db v) = None) \<longrightarrow>
          getItemByID_part001 to_key itemID v = JSON 500 (ErrorBody SqlError))
   \<and> (\<forall>rows r. sql_open_ok (db v) \<and> reachable (db v) \<and> items_table (db v) = Some rows
            \<and> distinct (map ID rows) \<and> r \<in> set rows \<and> to_key itemID = Some (ID r) \<longrightarrow>
          getItemByID_part001 to_key itemID v = JSON 200 (ItemBody r))
   \<and> (\<forall>rows. sql_open_ok (db v) \<and> reachable (db v) \<and> items_table (db v) = Some rows
            \<and> (\<forall>r\<in>set rows. to_key itemID \<noteq> Some (ID r)) \<longrightarrow>
          getItemByID_part001 to_key itemID v = JSON 404 (ErrorBody ErrNoRows))"
proof (intro conjI allI impI)
  show "getItemsByID_main itemID w = JSON 400 (ErrorBody OpenError)" if "os_Open w ItemFile = None"
    using that by (simp add: getItemsByID_main_def)
  show "getItemsByID_main itemID w = JSON 500 (ErrorBody ReadError)"
    if "os_Open w ItemFile = Some f \<and> \<not> can_read f" for f
    using that by (simp add: getItemsByID_main_def readItems_def ioutil_ReadAll_def)
  show "getItemsByID_main (Itoa i) w = JSON 200 (ItemBody (json_Unmarshal (contents f) [] ! i))"
    if "os_Open w ItemFile = Some f \<and> can_read f \<and> i < length (json_Unmarshal (contents f) [])"
    for f i
    using that range_find_hit[of i "json_Unmarshal (contents f) []" 0]
    by (simp add: getItemsByID_main_def readItems_def ioutil_ReadAll_def)
  show "getItemsByID_main itemID w = JSON 404 NullBody"
    if "os_Open w ItemFile = Some f \<and> can_read f
            \<and> (\<forall>i<length (json_Unmarshal (contents f) []). itemID \<noteq> Itoa i)" for f
    using that range_find_None[of "json_Unmarshal (contents f) []" itemID 0]
    by (simp add: getItemsByID_main_def readItems_def ioutil_ReadAll_def)
  show "status (getItemByID_part001 to_key itemID v) = 500" if "\<not> sql_open_ok (db v)"
    using that by (simp add: getItemByID_part001_def)
  show "getItemByID_part001 to_key itemID v = JSON 500 (ErrorBody SqlError)"
    if "sql_open_ok (db v) \<and> (\<not> reachable (db v) \<or> items_table (db v) = None)"
    using that by (auto simp: getItemByID_part001_def query_row_def split: option.splits)
  show "getItemByID_part001 to_key itemID v = JSON 200 (ItemBody r)"
    if "sql_open_ok (db v) \<and> reachable (db v) \<and> items_table (db v) = Some rows
            \<and> distinct (map ID rows) \<and> r \<in> set rows \<and> to_key itemID = Some (ID r)" for rows r
    using that find_key[of rows r "to_key itemID"]
    by (simp add: getItemByID_part001_def query_row_def)
  show "getItemByID_part001 to_key itemID v = JSON 404 (ErrorBody ErrNoRows)"
    if "sql_open_ok (db v) \<and> reachable (db v) \<and> items_table (db v) = Some rows
            \<and> (\<forall>r\<in>set rows. to_key itemID \<noteq> Some (ID r))" for rows
    using that find_no_key[of rows "to_key itemID"]
    by (simp add: getItemByID_part001_def query_row_def)
qed


lemma Itoa_small: "Itoa 0 = ''0''" "Itoa 1 = ''1''" "Itoa (Suc 0) = ''1''"
  by (subst Itoa.simps, simp add: hexdigit_def)+

theorem getByID_by_backend_witness:
  "os_Open (fresh_world :: Item world) ItemFile = None
   \<and> getItemsByID_main ''1'' (fresh_world :: Item world) = JSON 400 (ErrorBody OpenError)
   \<and> getItemsByID_main ''1'' (unreadable :: Item world) = JSON 500 (ErrorBody ReadError)
   \<and> getItemsByID_main ''1'' two_items = JSON 200 (ItemBody hat)
   \<and> getItemsByID_main ''01'' two_items = JSON 404 NullBody
   \<and> status (getItemByID_part001 decimal_key ''1''
         ((one_row :: ItemID world)\<lparr>db := empty_db\<lparr>sql_open_ok := False\<rparr>\<rparr>)) = 500
   \<and> getItemByID_part001 decimal_key ''1''
         ((one_row :: ItemID world)\<lparr>db := empty_db\<lparr>items_table := None\<rparr>\<rparr>) =
       JSON 500 (ErrorBody SqlError)
   \<and> getItemByID_part001 decimal_key ''1'' (one_row :: ItemID world) = JSON 200 (ItemBody boots_row)
   \<and> getItemByID_part001 decimal_key ''2'' (one_row :: ItemID world) =
       JSON 404 (ErrorBody ErrNoRows)"
proof -
  have a: "os_Open (fresh_world :: Item world) ItemFile = None"
    by (simp add: os_Open_def fresh_world_def)
  have b: "os_Open (unreadable :: Item world) ItemFile = Some ((regular (Json []))\<lparr>can_read := False\<rparr>)"
    by (simp add: os_Open_def unreadable_def regular_def)
  have c: "os_Open two_items ItemFile = Some (regular (Json [boots, hat]))"
    by (simp add: os_Open_def two_items_def regular_def)
  have none: "\<forall>i<length (json_Unmarshal (contents (regular (Json [boots, hat]))) []). ''01'' \<noteq> Itoa i"
    by (auto simp: regular_def json_Unmarshal_def less_Suc_eq Itoa_small numeral_2_eq_2)
  have d: "db (one_row :: ItemID world) = empty_db\<lparr>items_table := Some [boots_row], sequence := 1\<rparr>"
    by (simp add: one_row_def)
  have 1: "getItemsByID_main ''1'' (fresh_world :: Item world) = JSON 400 (ErrorBody OpenError)"
    using getByID_by_backend[where w = "fresh_world :: Item world" and itemID = "''1''" and v = "one_row :: ItemID world" and to_key = decimal_key] a by simp
  have 2: "getItemsByID_main ''1'' (unreadable :: Item world) = JSON 500 (ErrorBody ReadError)"
    using getByID_by_backend[where w = "unreadable :: Item world" and itemID = "''1''" and v = "one_row :: ItemID world" and to_key = decimal_key] b by (simp add: regular_def)
  have "getItemsByID_main (Itoa 1) two_items =
      JSON 200 (ItemBody (json_Unmarshal (contents (regular (Json [boots, hat]))) [] ! 1))"
    using getByID_by_backend[where w = two_items and itemID = "''1''" and v = "one_row :: ItemID world" and to_key = decimal_key] c by (simp add: regular_def json_Unmarshal_def)
  then have 3: "getItemsByID_main ''1'' two_items = JSON 200 (ItemBody hat)"
    by (simp add: Itoa_small regular_def json_Unmarshal_def)
  have 4: "getItemsByID_main ''01'' two_items = JSON 404 NullBody"
    using getByID_by_backend[where w = two_items and itemID = "''01''" and v = "one_row :: ItemID world" and to_key = decimal_key] c none by (simp add: regular_def)
  have 5: "status (getItemByID_part001 decimal_key ''1''
         ((one_row :: ItemID world)\<lparr>db := empty_db\<lparr>sql_open_ok := False\<rparr>\<rparr>)) = 500"
    using getByID_by_backend[where w = two_items and itemID = "''1''" and to_key = decimal_key
        and v = "(one_row :: ItemID world)\<lparr>db := empty_db\<lparr>sql_open_ok := False\<rparr>\<rparr>"]
    by (simp add: empty_db_def)
  have 6: "getItemByID_part001 decimal_key ''1''
         ((one_row :: ItemID world)\<lparr>db := empty_db\<lparr>items_table := None\<rparr>\<rparr>) =
       JSON 500 (ErrorBody SqlError)"
    using getByID_by_backend[where w = two_items and itemID = "''1''" and to_key = decimal_key
        and v = "(one_row :: ItemID world)\<lparr>db := empty_db\<lparr>items_table := None\<rparr>\<rparr>"]
    by (simp add: empty_db_def)
  have 7: "getItemByID_part001 decimal_key ''1'' (one_row :: ItemID world) = JSON 200 (ItemBody boots_row)"
    using getByID_by_backend[where w = two_items and itemID = "''1''" and to_key = decimal_key
        and v = "one_row :: ItemID world"]
    by (simp add: d empty_db_def decimal_key_def boots_row_def)
  have 8: "getItemByID_part001 decimal_key ''2'' (one_row :: ItemID world) =
       JSON 404 (ErrorBody ErrNoRows)"
    using getByID_by_backend[where w = two_items and itemID = "''2''" and to_key = decimal_key
        and v = "one_row :: ItemID world"]
    by (simp add: d empty_db_def decimal_key_def boots_row_def)
  from a 1 2 3 4 5 6 7 8 show ?thesis by blast
qed

lemma suffix_jpg_images: "suffix ''.jpg'' (''images/'' @ name) \<longleftrightarrow> suffix ''.jpg'' name"
  by (auto simp: suffix_append suffix_def Cons_eq_append_conv append_eq_Cons_conv)

lemma default_path: "path_Join [ImgDir, ''default.jpg''] = ''images/default.jpg''"
  by (simp add: path_Join_plain(1))

lemma getImg_rejects:
  assumes "CHR ''/'' \<notin> set name" "\<not> suffix ''.jpg'' name"
  shows "getImg name w = JSON 400 (Message ''Image path does not end with .jpg'')"
proof -
  consider "name = []" | "name = ''.''" | "name = ''..''"
    | "name \<noteq> []" "name \<noteq> ''.''" "name \<noteq> ''..''"
    by blast
  then have "\<not> strings_HasSuffix (path_Join [ImgDir, name]) ''.jpg''"
  proof cases
    case 1
    then show ?thesis
      by (simp add: path_Join_def path_Clean_def ImgDir_def clean_step_def strings_HasSuffix_def)
  next
    case 2
    then show ?thesis
      by (simp add: path_Join_def path_Clean_def ImgDir_def clean_step_def strings_HasSuffix_def)
  next
    case 3
    then show ?thesis
      by (simp add: path_Join_def path_Clean_def ImgDir_def clean_step_def strings_HasSuffix_def)
  next
    case 4
    have "path_Join [ImgDir, name] = ''images/'' @ name"
      using path_Join_plain(1)[OF assms(1) 4] .
    with assms(2) show ?thesis
      by (simp only: strings_HasSuffix_iff suffix_jpg_images not_False_eq_True)
  qed
  then show ?thesis
    by (simp add: getImg_def Let_def)
qed

text \<open>
  C7. Fetch refuses with 400 every name that does not end in \<open>.jpg\<close>, and answers a
  \<open>.jpg\<close> name that has no file with the default image, never with 404. \<^verbatim>\<open>getImg\<close> tests
  the path that \<^verbatim>\<open>path.Join\<close> has cleaned, not the name: the name \<^verbatim>\<open>a.jpg/\<close> does not end in
  \<open>.jpg\<close> and is served the file \<^verbatim>\<open>images/a.jpg\<close>. And where \<^verbatim>\<open>images/default.jpg\<close> is
  missing, a \<open>.jpg\<close> name without a file is answered 404.
\<close>

theorem getImg_accepts_cleaned_path:
  "\<not> strings_HasSuffix ''a.jpg/'' ''.jpg''
   \<and> getImg ''a.jpg/'' (gallery :: Item world) = Served (Bytes ''JPEG'')
   \<and> strings_HasSuffix ''nope.jpg'' ''.jpg''
   \<and> getImg ''nope.jpg'' (gallery :: Item world) = HTTPError 404"
proof -
  have 1: "\<not> strings_HasSuffix ''a.jpg/'' ''.jpg''" "strings_HasSuffix ''nope.jpg'' ''.jpg''"
    by (simp_all add: strings_HasSuffix_def)
  have p: "path_Join [ImgDir, ''a.jpg/''] = ''images/a.jpg''"
    "path_Join [ImgDir, ''nope.jpg''] = ''images/nope.jpg''"
    by (simp_all add: path_Join_def path_Clean_def ImgDir_def clean_step_def)
  have 2: "getImg ''a.jpg/'' (gallery :: Item world) = Served (Bytes ''JPEG'')"
    by (simp add: getImg_def p strings_HasSuffix_def os_Stat_def c_File_def os_Open_def
        gallery_def regular_def)
  have 3: "getImg ''nope.jpg'' (gallery :: Item world) = HTTPError 404"
    by (simp add: getImg_def p default_path strings_HasSuffix_def os_Stat_def c_File_def
        os_Open_def gallery_def regular_def)
  from 1 2 3 show ?thesis by blast
qed

text \<open>
  C7, as amended. \<^verbatim>\<open>getImg\<close> refuses with 400 exactly the names whose path, cleaned by
  \<^verbatim>\<open>path.Join("images", name)\<close>, does not end in \<open>.jpg\<close>: among them every name without
  a slash that does not end in \<open>.jpg\<close>. For a name that ends in \<open>.jpg\<close> it sends the file at the cleaned path
  \<^verbatim>\<open>path.Join("images", name)\<close> when that file exists and can be opened, and the file
  \<^verbatim>\<open>images/default.jpg\<close> when no file exists at the cleaned path and the default image
  can be opened. For such a name without a slash the cleaned path is
  \<^verbatim>\<open>images/\<close> followed by the name.
\<close>

theorem getImg_cases:
  "(getImg name w = JSON 400 (Message ''Image path does not end with .jpg'')
      \<longleftrightarrow> \<not> suffix ''.jpg'' (path_Join [ImgDir, name]))
   \<and> (CHR ''/'' \<notin> set name \<and> \<not> suffix ''.jpg'' name \<longrightarrow>
      getImg name w = JSON 400 (Message ''Image path does not end with .jpg''))
   \<and> (suffix ''.jpg'' name \<longrightarrow>
        (\<forall>f. fs w (path_Join [ImgDir, name]) = Some f \<and> can_open f \<longrightarrow>
           getImg name w = Served (contents f))
      \<and> (\<forall>d. fs w (path_Join [ImgDir, name]) = None
              \<and> fs w ''images/default.jpg'' = Some d \<and> can_open d \<longrightarrow>
           getImg name w = Served (contents d)))
   \<and> (CHR ''/'' \<notin> set name \<and> suffix ''.jpg'' name \<longrightarrow>
        path_Join [ImgDir, name] = ''images/'' @ name)"
proof (intro conjI allI impI)
  show "getImg name w = JSON 400 (Message ''Image path does not end with .jpg'')
      \<longleftrightarrow> \<not> suffix ''.jpg'' (path_Join [ImgDir, name])"
    by (simp add: getImg_def Let_def strings_HasSuffix_iff c_File_def split: option.splits)
  show "getImg name w = JSON 400 (Message ''Image path does not end with .jpg'')"
    if "CHR ''/'' \<notin> set name \<and> \<not> suffix ''.jpg'' name"
    using that getImg_rejects by blast
  show "getImg name w = Served (contents f)"
    if "suffix ''.jpg'' name" "fs w (path_Join [ImgDir, name]) = Some f \<and> can_open f" for f
    using that path_Join_jpg[OF that(1)]
    by (simp add: getImg_def Let_def strings_HasSuffix_iff os_Stat_def c_File_def os_Open_def)
  show "getImg name w = Served (contents d)"
    if "suffix ''.jpg'' name"
      "fs w (path_Join [ImgDir, name]) = None \<and> fs w ''images/default.jpg'' = Some d \<and> can_open d"
    for d
    using that path_Join_jpg[OF that(1)]
    by (simp add: getImg_def Let_def strings_HasSuffix_iff os_Stat_def c_File_def os_Open_def
        default_path)
  show "path_Join [ImgDir, name] = ''images/'' @ name"
    if "CHR ''/'' \<notin> set name \<and> suffix ''.jpg'' name"
  proof -
    from that have "4 \<le> length name"
      by (auto simp: suffix_def)
    then have "name \<noteq> []" "name \<noteq> ''.''" "name \<noteq> ''..''"
      by auto
    with that show ?thesis
      by (simp add: path_Join_plain(1))
  qed
qed


theorem getImg_cases_witness:
  "CHR ''/'' \<notin> set ''notes.txt'' \<and> \<not> suffix ''.jpg'' ''notes.txt''
   \<and> getImg ''notes.txt'' (gallery_default :: Item world) =
       JSON 400 (Message ''Image path does not end with .jpg'')
   \<and> suffix ''.jpg'' ''a.jpg''
   \<and> getImg ''a.jpg'' (gallery_default :: Item world) = Served (Bytes ''JPEG'')
   \<and> suffix ''.jpg'' ''nope.jpg''
   \<and> fs (gallery_default :: Item world) ''images/nope.jpg'' = None
   \<and> getImg ''nope.jpg'' (gallery_default :: Item world) = Served (Bytes ''DEFAULT'')"
proof -
  have t: "CHR ''/'' \<notin> set ''notes.txt''" "\<not> suffix ''.jpg'' ''notes.txt''"
    and a: "CHR ''/'' \<notin> set ''a.jpg''" "suffix ''.jpg'' ''a.jpg''"
    and n: "CHR ''/'' \<notin> set ''nope.jpg''" "suffix ''.jpg'' ''nope.jpg''"
    by (simp_all add: suffix_def)
  have f: "fs (gallery_default :: Item world) ''images/a.jpg'' = Some (regular (Bytes ''JPEG''))"
    "fs (gallery_default :: Item world) ''images/nope.jpg'' = None"
    "fs (gallery_default :: Item world) ''images/default.jpg'' = Some (regular (Bytes ''DEFAULT''))"
    by (simp_all add: gallery_default_def)
  have 1: "getImg ''notes.txt'' (gallery_default :: Item world) =
       JSON 400 (Message ''Image path does not end with .jpg'')"
    using getImg_cases[where name = "''notes.txt''" and w = "gallery_default :: Item world"] t
    by blast
  have pa: "path_Join [ImgDir, ''a.jpg''] = ''images/a.jpg''"
    using getImg_cases[where name = "''a.jpg''" and w = "gallery_default :: Item world"] a
    by simp
  have pn: "path_Join [ImgDir, ''nope.jpg''] = ''images/nope.jpg''"
    using getImg_cases[where name = "''nope.jpg''" and w = "gallery_default :: Item world"] n
    by simp
  have 2: "getImg ''a.jpg'' (gallery_default :: Item world) = Served (Bytes ''JPEG'')"
    using getImg_cases[where name = "''a.jpg''" and w = "gallery_default :: Item world"] a(2) f(1)
    by (simp add: pa regular_def)
  have 3: "getImg ''nope.jpg'' (gallery_default :: Item world) = Served (Bytes ''DEFAULT'')"
    using getImg_cases[where name = "''nope.jpg''" and w = "gallery_default :: Item world"]
      n(2) f(2,3)
    by (simp add: pn regular_def)
  from t a n f 1 2 3 show ?thesis by blast
qed

end
